theory Spec2Isabelle
  imports Main "HOL-Library.Sublist"
begin

section \<open>JavaScript strings\<close>

text \<open>
  A JavaScript string is a sequence of UTF-16 code units; \<open>length\<close>, \<open>slice\<close>, \<open>trim\<close>
  and regular expressions without the \<open>u\<close> flag all work on code units. A code unit is
  modelled as a natural number, a source literal is written \<open>lit ''...''\<close>.
\<close>

type_synonym jstring = "nat list"

definition lit :: "string \<Rightarrow> jstring" where
  "lit s = map of_char s"

text \<open>
  The characters that \<open>String.prototype.trim\<close> strips and that the regular expression
  class \<open>\s\<close> matches (ECMAScript WhiteSpace and LineTerminator): TAB, LF, VT, FF, CR,
  SPACE, U+00A0, U+1680, U+2000 to U+200A, U+2028, U+2029, U+202F, U+205F, U+3000, U+FEFF.
\<close>

definition js_space :: "nat \<Rightarrow> bool" where
  "js_space c =
     (c \<in> {9, 10, 11, 12, 13, 32, 160, 5760, 8232, 8233, 8239, 8287, 12288, 65279}
      \<or> (8192 \<le> c \<and> c \<le> 8202))"

text \<open>The regular expression class \<open>\d\<close>: the ten ASCII digits.\<close>

definition js_digit :: "nat \<Rightarrow> bool" where
  "js_digit c = (48 \<le> c \<and> c \<le> 57)"

definition trim :: "jstring \<Rightarrow> jstring" where
  "trim s = rev (dropWhile js_space (rev (dropWhile js_space s)))"

definition startsWith :: "jstring \<Rightarrow> jstring \<Rightarrow> bool" where
  "startsWith s p = (take (length p) s = p)"

definition slice :: "nat \<Rightarrow> jstring \<Rightarrow> jstring" where
  "slice n s = drop n s"

text \<open>\<open>s.split("\n")\<close>: the pieces between line feeds; never an empty list.\<close>

fun split_nl :: "jstring \<Rightarrow> jstring list" where
  "split_nl [] = [[]]"
| "split_nl (c # cs) =
     (if c = 10 then [] # split_nl cs
      else (case split_nl cs of [] \<Rightarrow> [[c]] | l # ls \<Rightarrow> (c # l) # ls))"

text \<open>\<open>Number.prototype.toString\<close> on a non-negative integer: its decimal digits.\<close>

fun toString :: "nat \<Rightarrow> jstring" where
  "toString n = (if n < 10 then [48 + n] else toString (n div 10) @ [48 + n mod 10])"

declare toString.simps [simp del]

text \<open>
  Truthiness of a value of type \<open>string | null | undefined\<close>: absent and the empty
  string are falsy.
\<close>

definition truthy :: "jstring option \<Rightarrow> bool" where
  "truthy v = (case v of None \<Rightarrow> False | Some s \<Rightarrow> s \<noteq> [])"

section \<open>The streaming endpoint as the client sees it\<close>

text \<open>
  What \<open>fetch\<close> gives back: the promise rejects, or it resolves to a response with its
  \<open>ok\<close> flag and its body (possibly null). A body is read chunk by chunk; each chunk is
  the text the \<open>TextDecoder\<close> returns for it, and the reading ends when \<open>read()\<close>
  reports \<open>done\<close> or throws.
\<close>

datatype stream_end = StreamDone | ReadThrows

datatype fetch_result =
    FetchRejects
  | Response bool "(jstring list \<times> stream_end) option"

text \<open>
  A parsed event. The repository declares the events of this endpoint as
  \<open>{ text: string; session_id: string }\<close> (lib/api.ts); the chat interface tests each field
  for truthiness before using it, so either field may be absent. \<open>JSON.parse\<close> is a
  parameter of the model: \<open>None\<close> stands for a payload on which the body of the inner
  \<open>try\<close> throws and the line is skipped.
\<close>

record event =
  ev_text :: "jstring option"
  ev_session_id :: "jstring option"

record chat_request =
  req_message :: jstring
  req_session_id :: "jstring option"

section \<open>ChatInterface: state and sendMessage\<close>

datatype role = User | Assistant

record message =
  id_msg :: jstring
  role :: role
  content :: jstring
  timestamp :: nat

record chat_state =
  messages :: "message list"
  input :: jstring
  isLoading :: bool
  streamingContent :: jstring
  sessionId :: "jstring option"
  showCallbackForm :: bool
  callbackSuccess :: bool
  streamingRef :: jstring

definition chat_initial :: chat_state where
  "chat_initial =
     \<lparr>messages = [], input = [], isLoading = False, streamingContent = [],
      sessionId = None, showCallbackForm = False, callbackSuccess = False,
      streamingRef = []\<rparr>"

text \<open>The clock as one call of sendMessage reads it: \<open>Date.now()\<close> and \<open>new Date()\<close>
  for the user message, and again for the assistant message.\<close>

record clock =
  now_user :: nat
  date_user :: nat
  now_reply :: nat
  date_reply :: nat

text \<open>
  The body of the \<open>for (const line of lines)\<close> loop. The loop carries the component
  state and the local variable \<open>newSessionId\<close>.
\<close>

definition sendMessage_line ::
  "(jstring \<Rightarrow> event option) \<Rightarrow> jstring \<Rightarrow> chat_state \<times> jstring option
     \<Rightarrow> chat_state \<times> jstring option" where
  "sendMessage_line JSON_parse line acc =
     (case acc of (s, newSessionId) \<Rightarrow>
        if startsWith line (lit ''data: '') then
          (let data = trim (slice 6 line) in
           if data = lit ''[DONE]'' then (s, newSessionId)
           else
             (case JSON_parse data of
                None \<Rightarrow> (s, newSessionId)
              | Some parsed \<Rightarrow>
                  (let s1 =
                     (case ev_text parsed of
                        None \<Rightarrow> s
                      | Some t \<Rightarrow>
                          if t \<noteq> [] then
                            s\<lparr>streamingRef := streamingRef s @ t,
                              streamingContent := streamingRef s @ t\<rparr>
                          else s)
                   in
                     if truthy (ev_session_id parsed) \<and> \<not> truthy newSessionId then
                       (s1\<lparr>sessionId := ev_session_id parsed\<rparr>, ev_session_id parsed)
                     else (s1, newSessionId))))
        else (s, newSessionId))"

text \<open>One iteration of \<open>while (true)\<close> after a successful read: split the chunk at line
  feeds and run the line loop.\<close>

definition sendMessage_chunk ::
  "(jstring \<Rightarrow> event option) \<Rightarrow> jstring \<Rightarrow> chat_state \<times> jstring option
     \<Rightarrow> chat_state \<times> jstring option" where
  "sendMessage_chunk JSON_parse chunk acc = fold (sendMessage_line JSON_parse) (split_nl chunk) acc"

definition sendMessage_read ::
  "(jstring \<Rightarrow> event option) \<Rightarrow> jstring list \<Rightarrow> chat_state \<times> jstring option
     \<Rightarrow> chat_state \<times> jstring option" where
  "sendMessage_read JSON_parse chunks acc = fold (sendMessage_chunk JSON_parse) chunks acc"

text \<open>
  sendMessage up to its first \<open>await\<close>: the guard, the user message, the resets, and the
  request that \<open>fetch\<close> sends. \<open>None\<close> means that no request was issued.
  sendMessage is a closure of one render of the component: \<open>isLoading\<close> and
  \<open>sessionId\<close> are constants of that render, whose state is \<open>rendered\<close>. The setters
  act on the state React holds at the time of the call, \<open>s\<close>; \<open>streamingRef\<close> is a
  ref and is written at once.
\<close>

definition sendMessage_start ::
  "clock \<Rightarrow> jstring \<Rightarrow> chat_state \<Rightarrow> chat_state \<Rightarrow> chat_state \<times> chat_request option" where
  "sendMessage_start clk messageText rendered s =
     (if trim messageText = [] \<or> isLoading rendered then (s, None)
      else
        (s\<lparr>messages := messages s @
              [\<lparr>id_msg = toString (now_user clk), role = User,
                content = trim messageText, timestamp = date_user clk\<rparr>],
           input := [],
           isLoading := True,
           streamingRef := [],
           streamingContent := []\<rparr>,
         Some \<lparr>req_message = trim messageText, req_session_id = sessionId rendered\<rparr>))"

text \<open>The end of the \<open>try\<close> block: the streamed text becomes the assistant message.\<close>

definition sendMessage_complete :: "clock \<Rightarrow> chat_state \<Rightarrow> chat_state" where
  "sendMessage_complete clk s =
     s\<lparr>messages := messages s @
          [\<lparr>id_msg = toString (now_reply clk + 1), role = Assistant,
            content = streamingRef s, timestamp = date_reply clk\<rparr>],
       streamingRef := [],
       streamingContent := []\<rparr>"

definition fallback_text :: jstring where
  "fallback_text = lit ''I'm sorry, I encountered an error. Please try again.''"

text \<open>The \<open>catch\<close> block.\<close>

definition sendMessage_catch :: "clock \<Rightarrow> chat_state \<Rightarrow> chat_state" where
  "sendMessage_catch clk s =
     s\<lparr>messages := messages s @
          [\<lparr>id_msg = toString (now_reply clk + 1), role = Assistant,
            content = fallback_text, timestamp = date_reply clk\<rparr>],
       streamingRef := [],
       streamingContent := []\<rparr>"

text \<open>
  sendMessage from the moment \<open>fetch\<close> settles to its end, \<open>finally\<close> included.
  \<open>captured\<close> is the \<open>sessionId\<close> of the closure that issued the request, the initial
  value of \<open>newSessionId\<close>.
\<close>

definition sendMessage_settle ::
  "(jstring \<Rightarrow> event option) \<Rightarrow> clock \<Rightarrow> fetch_result \<Rightarrow> jstring option
     \<Rightarrow> chat_state \<Rightarrow> chat_state" where
  "sendMessage_settle JSON_parse clk res captured s =
     (let s1 =
        (case res of
           FetchRejects \<Rightarrow> sendMessage_catch clk s
         | Response ok body \<Rightarrow>
             if \<not> ok then sendMessage_catch clk s
             else
               (case body of
                  None \<Rightarrow> sendMessage_catch clk s
                | Some (chunks, e) \<Rightarrow>
                    (let s2 = fst (sendMessage_read JSON_parse chunks (s, captured)) in
                     case e of
                       ReadThrows \<Rightarrow> sendMessage_catch clk s2
                     | StreamDone \<Rightarrow> sendMessage_complete clk s2)))
      in s1\<lparr>isLoading := False\<rparr>)"

text \<open>
  A whole call of sendMessage, made from a render that shows the state \<open>s\<close> and run
  to its end with nothing else happening in between: the new state and the requests it
  sent.
\<close>

definition sendMessage ::
  "(jstring \<Rightarrow> event option) \<Rightarrow> clock \<Rightarrow> fetch_result \<Rightarrow> jstring \<Rightarrow> chat_state
     \<Rightarrow> chat_state \<times> chat_request list" where
  "sendMessage JSON_parse clk res messageText s =
     (case sendMessage_start clk messageText s s of
        (s1, None) \<Rightarrow> (s1, [])
      | (s1, Some req) \<Rightarrow>
          (sendMessage_settle JSON_parse clk res (req_session_id req) s1, [req]))"

subsection \<open>The component over time\<close>

text \<open>
  The component as a transition system. \<open>st\<close> is the state React holds, \<open>shown\<close> the
  state of the last render: the handlers that can be called are the closures of that
  render. \<open>Render\<close> is React rendering the component again. A call of sendMessage takes
  several steps, and other steps may come in between:
  \<^item> \<open>Ask\<close> is the call up to the \<open>fetch\<close>, in the closure of the last render;
  \<^item> \<open>Chunk n\<close> is one iteration of the reading loop of the \<open>n\<close>-th call in flight;
  \<^item> \<open>Finish n\<close> ends that call: the loop saw \<open>done\<close> (\<open>LoopEnds\<close>), or something
    threw inside the \<open>try\<close> (\<open>TryThrows\<close>: the \<open>fetch\<close> was rejected, the status
    was not OK, the body was missing, or a read failed); \<open>finally\<close> runs in both cases.
  A call in flight keeps its request and its local variable \<open>newSessionId\<close>. The other
  events are the remaining state setters of the component: the textarea's \<open>onChange\<close>,
  the callback button and the callback form's \<open>onClose\<close>, and \<open>onSuccess\<close> with its
  timer. \<open>sent\<close> logs every request issued.
\<close>

datatype try_end = LoopEnds | TryThrows

datatype chat_event =
    Render
  | Ask clock jstring
  | Chunk nat jstring
  | Finish nat clock try_end
  | SetInput jstring
  | SetShowCallbackForm bool
  | SetCallbackSuccess bool

record flight =
  flight_request :: chat_request
  flight_newSessionId :: "jstring option"

record chat_ui =
  st :: chat_state
  shown :: chat_state
  inflight :: "flight list"
  sent :: "chat_request list"

definition chat_ui_initial :: chat_ui where
  "chat_ui_initial = \<lparr>st = chat_initial, shown = chat_initial, inflight = [], sent = []\<rparr>"

fun chat_step :: "(jstring \<Rightarrow> event option) \<Rightarrow> chat_event \<Rightarrow> chat_ui \<Rightarrow> chat_ui" where
  "chat_step JSON_parse Render u = u\<lparr>shown := st u\<rparr>"
| "chat_step JSON_parse (Ask clk messageText) u =
     (case sendMessage_start clk messageText (shown u) (st u) of
        (s1, None) \<Rightarrow> u\<lparr>st := s1\<rparr>
      | (s1, Some req) \<Rightarrow>
          u\<lparr>st := s1,
            inflight := inflight u @
              [\<lparr>flight_request = req, flight_newSessionId = req_session_id req\<rparr>],
            sent := sent u @ [req]\<rparr>)"
| "chat_step JSON_parse (Chunk n chunk) u =
     (if n < length (inflight u) then
        (case sendMessage_chunk JSON_parse chunk (st u, flight_newSessionId (inflight u ! n)) of
           (s1, newSessionId) \<Rightarrow>
             u\<lparr>st := s1,
               inflight := (inflight u)
                 [n := (inflight u ! n)\<lparr>flight_newSessionId := newSessionId\<rparr>]\<rparr>)
      else u)"
| "chat_step JSON_parse (Finish n clk e) u =
     (if n < length (inflight u) then
        u\<lparr>st := (case e of
                   LoopEnds \<Rightarrow> sendMessage_complete clk (st u)
                 | TryThrows \<Rightarrow> sendMessage_catch clk (st u))\<lparr>isLoading := False\<rparr>,
          inflight := take n (inflight u) @ drop (Suc n) (inflight u)\<rparr>
      else u)"
| "chat_step JSON_parse (SetInput v) u = u\<lparr>st := (st u)\<lparr>input := v\<rparr>\<rparr>"
| "chat_step JSON_parse (SetShowCallbackForm b) u = u\<lparr>st := (st u)\<lparr>showCallbackForm := b\<rparr>\<rparr>"
| "chat_step JSON_parse (SetCallbackSuccess b) u = u\<lparr>st := (st u)\<lparr>callbackSuccess := b\<rparr>\<rparr>"

definition chat_run :: "(jstring \<Rightarrow> event option) \<Rightarrow> chat_event list \<Rightarrow> chat_ui \<Rightarrow> chat_ui" where
  "chat_run JSON_parse evs u = fold (chat_step JSON_parse) evs u"

text \<open>
  Every call of sendMessage in a sequence of events is made from a render that shows
  the current loading flag, as it is when React has rendered the component since the
  flag last changed.
\<close>

fun calls_from_latest_render ::
  "(jstring \<Rightarrow> event option) \<Rightarrow> chat_event list \<Rightarrow> chat_ui \<Rightarrow> bool" where
  "calls_from_latest_render JSON_parse [] u = True"
| "calls_from_latest_render JSON_parse (ev # evs) u =
     ((case ev of
         Ask clk messageText \<Rightarrow> isLoading (shown u) = isLoading (st u)
       | _ \<Rightarrow> True)
      \<and> calls_from_latest_render JSON_parse evs (chat_step JSON_parse ev u))"

subsection \<open>The events of a stream, read off the wire\<close>

text \<open>
  The reference the loop of sendMessage is compared with: the lines of all chunks in
  arrival order, the events parsed from the lines that start with \<open>data: \<close> and are not
  the terminal marker, the text each event carries, and the first session id carried by
  an event (a field that is absent or empty carries none).
\<close>

definition sse_lines :: "jstring list \<Rightarrow> jstring list" where
  "sse_lines chunks = concat (map split_nl chunks)"

definition delta_event :: "(jstring \<Rightarrow> event option) \<Rightarrow> jstring \<Rightarrow> event option" where
  "delta_event JSON_parse line =
     (if startsWith line (lit ''data: '') \<and> trim (slice 6 line) \<noteq> lit ''[DONE]''
      then JSON_parse (trim (slice 6 line)) else None)"

definition delta_events :: "(jstring \<Rightarrow> event option) \<Rightarrow> jstring list \<Rightarrow> event list" where
  "delta_events JSON_parse chunks = List.map_filter (delta_event JSON_parse) (sse_lines chunks)"

definition delta_text :: "event \<Rightarrow> jstring" where
  "delta_text ev = (case ev_text ev of None \<Rightarrow> [] | Some t \<Rightarrow> t)"

definition first_session_id :: "event list \<Rightarrow> jstring option" where
  "first_session_id evs =
     (case filter (\<lambda>ev. truthy (ev_session_id ev)) evs of
        [] \<Rightarrow> None
      | ev # _ \<Rightarrow> ev_session_id ev)"

text \<open>
  The events of a response as the server sent it. The reads cut the text of the response
  into chunks at arbitrary places; the events are those of the lines of the whole text,
  wherever the cuts fall.
\<close>

definition stream_events :: "(jstring \<Rightarrow> event option) \<Rightarrow> jstring list \<Rightarrow> event list" where
  "stream_events JSON_parse chunks = List.map_filter (delta_event JSON_parse) (split_nl (concat chunks))"

text \<open>The first session id carried by the events of a list of lines.\<close>

definition first_sid_lines :: "(jstring \<Rightarrow> event option) \<Rightarrow> jstring list \<Rightarrow> jstring option" where
  "first_sid_lines P ls = first_session_id (List.map_filter (delta_event P) ls)"

text \<open>
  The responses on which a streaming request errors: \<open>fetch\<close> rejects, the status is
  not OK, the body is missing, or reading the stream throws.
\<close>

definition request_errors :: "fetch_result \<Rightarrow> bool" where
  "request_errors res =
     (case res of
        FetchRejects \<Rightarrow> True
      | Response ok body \<Rightarrow>
          if ok then (case body of None \<Rightarrow> True | Some (chunks, e) \<Rightarrow> e = ReadThrows)
          else True)"

subsection \<open>Invariants of the component\<close>

text \<open>At most one call is in flight, and the loading flag is set while it is.\<close>

definition single_flight :: "chat_ui \<Rightarrow> bool" where
  "single_flight u = (inflight u = [] \<or> (length (inflight u) = 1 \<and> isLoading (st u)))"

section \<open>lib/api.ts: streamChatMessage\<close>







section \<open>CallbackForm\<close>

record country =
  code :: jstring
  name :: jstring
  flag :: jstring
  lang :: jstring

text \<open>A flag is two regional indicator symbols, each a surrogate pair: U+1F1E6 is
  the pair D83C DDE6, and the indicators follow the alphabet.\<close>

definition regional :: "char \<Rightarrow> jstring" where
  "regional c = [55356, 56806 + (of_char c - 65)]"

definition flag_of :: "char \<Rightarrow> char \<Rightarrow> jstring" where
  "flag_of a b = regional a @ regional b"

definition COUNTRIES :: "country list" where
  "COUNTRIES =
     [\<lparr>code = lit ''+44'', name = lit ''United Kingdom'', flag = flag_of CHR ''G'' CHR ''B'', lang = lit ''en''\<rparr>,
      \<lparr>code = lit ''+33'', name = lit ''France'', flag = flag_of CHR ''F'' CHR ''R'', lang = lit ''fr''\<rparr>,
      \<lparr>code = lit ''+49'', name = lit ''Germany'', flag = flag_of CHR ''D'' CHR ''E'', lang = lit ''de''\<rparr>,
      \<lparr>code = lit ''+34'', name = lit ''Spain'', flag = flag_of CHR ''E'' CHR ''S'', lang = lit ''es''\<rparr>,
      \<lparr>code = lit ''+39'', name = lit ''Italy'', flag = flag_of CHR ''I'' CHR ''T'', lang = lit ''it''\<rparr>,
      \<lparr>code = lit ''+31'', name = lit ''Netherlands'', flag = flag_of CHR ''N'' CHR ''L'', lang = lit ''nl''\<rparr>,
      \<lparr>code = lit ''+32'', name = lit ''Belgium'', flag = flag_of CHR ''B'' CHR ''E'', lang = lit ''fr''\<rparr>,
      \<lparr>code = lit ''+351'', name = lit ''Portugal'', flag = flag_of CHR ''P'' CHR ''T'', lang = lit ''pt''\<rparr>,
      \<lparr>code = lit ''+43'', name = lit ''Austria'', flag = flag_of CHR ''A'' CHR ''T'', lang = lit ''de''\<rparr>,
      \<lparr>code = lit ''+41'', name = lit ''Switzerland'', flag = flag_of CHR ''C'' CHR ''H'', lang = lit ''de''\<rparr>,
      \<lparr>code = lit ''+353'', name = lit ''Ireland'', flag = flag_of CHR ''I'' CHR ''E'', lang = lit ''en''\<rparr>,
      \<lparr>code = lit ''+48'', name = lit ''Poland'', flag = flag_of CHR ''P'' CHR ''L'', lang = lit ''pl''\<rparr>,
      \<lparr>code = lit ''+46'', name = lit ''Sweden'', flag = flag_of CHR ''S'' CHR ''E'', lang = lit ''sv''\<rparr>,
      \<lparr>code = lit ''+47'', name = lit ''Norway'', flag = flag_of CHR ''N'' CHR ''O'', lang = lit ''no''\<rparr>,
      \<lparr>code = lit ''+45'', name = lit ''Denmark'', flag = flag_of CHR ''D'' CHR ''K'', lang = lit ''da''\<rparr>]"

datatype FormStatus = StatusIdle | StatusLoading | StatusSuccess | StatusError

record form_state =
  selectedCountry :: country
  phoneNumber :: jstring
  status :: FormStatus
  errorMessage :: jstring

definition form_initial :: form_state where
  "form_initial =
     \<lparr>selectedCountry = COUNTRIES ! 0, phoneNumber = [], status = StatusIdle,
      errorMessage = []\<rparr>"

record call_request =
  phone_number :: jstring
  country_code :: jstring
  session_id :: "jstring option"
  language :: jstring

text \<open>
  The outcome of the \<open>fetch\<close> of handleSubmit: it rejects with an Error (its message), or
  it resolves with the \<open>ok\<close> flag; the body of a response that is not ok is read as
  JSON, which throws (the message) or gives an object with an optional \<open>detail\<close>.
\<close>

datatype error_body = BodyThrows jstring | BodyDetail "jstring option"

datatype call_result = CallRejects jstring | CallResponse bool error_body

text \<open>
  handleSubmit, with the \<open>sessionId\<close> prop: the new state, the requests sent, and whether
  \<open>onSuccess\<close> was called (and the closing timer set).
\<close>

definition handleSubmit ::
  "jstring option \<Rightarrow> call_result \<Rightarrow> form_state \<Rightarrow> form_state \<times> call_request list \<times> bool" where
  "handleSubmit sessionId_prop res f =
     (let cleanNumber = filter (\<lambda>c. \<not> js_space c) (phoneNumber f) in
      if length cleanNumber < 6 \<or> length cleanNumber > 15 then
        (f\<lparr>errorMessage := lit ''Please enter a valid phone number'', status := StatusError\<rparr>,
         [], False)
      else
        (let f1 = f\<lparr>status := StatusLoading, errorMessage := []\<rparr>;
             req = \<lparr>phone_number = cleanNumber,
                    country_code = code (selectedCountry f),
                    session_id = sessionId_prop,
                    language = lang (selectedCountry f)\<rparr>
         in
           case res of
             CallRejects msg \<Rightarrow> (f1\<lparr>errorMessage := msg, status := StatusError\<rparr>, [req], False)
           | CallResponse ok body \<Rightarrow>
               if \<not> ok then
                 (case body of
                    BodyThrows msg \<Rightarrow>
                      (f1\<lparr>errorMessage := msg, status := StatusError\<rparr>, [req], False)
                  | BodyDetail d \<Rightarrow>
                      (f1\<lparr>errorMessage :=
                            (case d of
                               None \<Rightarrow> lit ''Failed to request callback''
                             | Some m \<Rightarrow>
                                 if m \<noteq> [] then m else lit ''Failed to request callback''),
                          status := StatusError\<rparr>,
                       [req], False))
               else (f1\<lparr>status := StatusSuccess\<rparr>, [req], True)))"

text \<open>The \<open>onChange\<close> of the phone input: everything but digits and white space is
  removed from the value the browser hands over.\<close>

definition phone_onChange :: "jstring \<Rightarrow> form_state \<Rightarrow> form_state" where
  "phone_onChange raw f =
     (let v = filter (\<lambda>c. js_digit c \<or> js_space c) raw;
          f1 = f\<lparr>phoneNumber := v\<rparr>
      in if status f = StatusError then f1\<lparr>status := StatusIdle\<rparr> else f1)"

definition country_onChange :: "jstring \<Rightarrow> form_state \<Rightarrow> form_state" where
  "country_onChange v f =
     (case find (\<lambda>c. code c = v) COUNTRIES of
        None \<Rightarrow> f
      | Some c \<Rightarrow> f\<lparr>selectedCountry := c\<rparr>)"

datatype form_event =
    ChangePhone jstring
  | ChangeCountry jstring
  | Submit "jstring option" call_result

fun form_step :: "form_event \<Rightarrow> form_state \<Rightarrow> form_state" where
  "form_step (ChangePhone raw) f = phone_onChange raw f"
| "form_step (ChangeCountry v) f = country_onChange v f"
| "form_step (Submit sid res) f = fst (handleSubmit sid res f)"

definition form_run :: "form_event list \<Rightarrow> form_state \<Rightarrow> form_state" where
  "form_run evs f = fold form_step evs f"

text \<open>The characters the phone field admits: digits and white space.\<close>

definition phone_char :: "nat \<Rightarrow> bool" where
  "phone_char c = (js_digit c \<or> js_space c)"

text \<open>A digit or the space character U+0020, and nothing else.\<close>

definition digit_or_space :: "nat \<Rightarrow> bool" where
  "digit_or_space c = (js_digit c \<or> c = 32)"

text \<open>The length test of handleSubmit, on the number with all white space removed.\<close>

definition valid_length :: "jstring \<Rightarrow> bool" where
  "valid_length phone =
     (6 \<le> length (filter (\<lambda>c. \<not> js_space c) phone) \<and> length (filter (\<lambda>c. \<not> js_space c) phone) \<le> 15)"

section \<open>VoiceInterface: processAudio\<close>

record voice_state =
  messages_v :: "message list"
  isRecording :: bool
  isProcessing :: bool
  isSpeaking :: bool
  sessionId_v :: "jstring option"
  error_v :: "jstring option"

definition voice_initial :: voice_state where
  "voice_initial =
     \<lparr>messages_v = [], isRecording = False, isProcessing = False, isSpeaking = False,
      sessionId_v = None, error_v = None\<rparr>"

text \<open>
  A \<open>fetch\<close> whose response is read as JSON: it rejects, or it resolves with the \<open>ok\<close>
  flag and the body that \<open>response.json()\<close> gives (\<open>None\<close> where it throws).
\<close>

datatype 'a fetched = Rejects | Responds bool "'a option"

text \<open>The body of \<open>/voice/transcribe\<close>: its \<open>transcript\<close> field, a string when present
  (lib/api.ts). The body of \<open>/chat\<close>: the interface ChatResponse of lib/api.ts.\<close>

record chat_data =
  response :: jstring
  session_id_d :: jstring

text \<open>What happens in speakText after the request: the response, then the blob, the
  audio element and \<open>play()\<close>.\<close>

datatype playback = BlobThrows | NoAudioElement | PlayRejects | PlayResolves

datatype synth_result = SynthRejects | SynthResponds bool playback

datatype voice_request =
    TranscribeRequest
  | ChatRequest jstring "jstring option"
  | SynthesizeRequest jstring

definition speakText :: "synth_result \<Rightarrow> voice_state \<Rightarrow> voice_state" where
  "speakText synth s =
     (let s1 = s\<lparr>isSpeaking := True\<rparr> in
      case synth of
        SynthRejects \<Rightarrow> s1\<lparr>isSpeaking := False\<rparr>
      | SynthResponds ok pb \<Rightarrow>
          if \<not> ok then s1\<lparr>isSpeaking := False\<rparr>
          else
            (case pb of
               BlobThrows \<Rightarrow> s1\<lparr>isSpeaking := False\<rparr>
             | NoAudioElement \<Rightarrow> s1
             | PlayRejects \<Rightarrow> s1\<lparr>isSpeaking := False\<rparr>
             | PlayResolves \<Rightarrow> s1))"

text \<open>The \<open>catch\<close> and \<open>finally\<close> blocks of processAudio.\<close>

definition processAudio_catch :: "voice_state \<Rightarrow> voice_state" where
  "processAudio_catch s =
     s\<lparr>error_v := Some (lit ''An error occurred. Please try again.''), isProcessing := False\<rparr>"

text \<open>
  processAudio on a recorded blob: the new state and the requests sent, in order.
  \<open>captured\<close> is the \<open>sessionId\<close> of the closure in which the recorder was started.
\<close>

definition processAudio ::
  "jstring option \<Rightarrow> clock \<Rightarrow> (jstring option) fetched \<Rightarrow> chat_data fetched \<Rightarrow> synth_result
     \<Rightarrow> voice_state \<Rightarrow> voice_state \<times> voice_request list" where
  "processAudio captured clk tr chat synth s =
     (let s0 = s\<lparr>isProcessing := True\<rparr> in
      case tr of
        Rejects \<Rightarrow> (processAudio_catch s0, [TranscribeRequest])
      | Responds ok body \<Rightarrow>
          if \<not> ok then (processAudio_catch s0, [TranscribeRequest])
          else
            (case body of
               None \<Rightarrow> (processAudio_catch s0, [TranscribeRequest])
             | Some None \<Rightarrow> (processAudio_catch s0, [TranscribeRequest])
             | Some (Some transcript) \<Rightarrow>
                 if trim transcript = [] then
                   (s0\<lparr>error_v := Some (lit ''Could not understand audio. Please try again.''),
                       isProcessing := False\<rparr>,
                    [TranscribeRequest])
                 else
                   (let s1 = s0\<lparr>messages_v := messages_v s0 @
                               [\<lparr>id_msg = toString (now_user clk), role = User,
                                 content = transcript, timestamp = date_user clk\<rparr>]\<rparr>;
                        reqs = [TranscribeRequest, ChatRequest transcript captured]
                    in
                      case chat of
                        Rejects \<Rightarrow> (processAudio_catch s1, reqs)
                      | Responds chat_ok chat_body \<Rightarrow>
                          if \<not> chat_ok then (processAudio_catch s1, reqs)
                          else
                            (case chat_body of
                               None \<Rightarrow> (processAudio_catch s1, reqs)
                             | Some chatData \<Rightarrow>
                                 (let s2 = (if \<not> truthy captured
                                            then s1\<lparr>sessionId_v := Some (session_id_d chatData)\<rparr>
                                            else s1);
                                      s3 = s2\<lparr>messages_v := messages_v s2 @
                                             [\<lparr>id_msg = toString (now_reply clk + 1),
                                               role = Assistant,
                                               content = response chatData,
                                               timestamp = date_reply clk\<rparr>]\<rparr>;
                                      s4 = speakText synth s3
                                  in (s4\<lparr>isProcessing := False\<rparr>,
                                      reqs @ [SynthesizeRequest (response chatData)]))))))"

section \<open>Run Gate and Run Executor\<close>

text \<open>
  The orchestrator that owns the gate is the backend of the repository (backend/api.py
  and backend/assistant.py), which the sources at hand do not contain; the client code
  above is its caller. The gate and the executor are therefore written down from the
  specification (sections 4.2, 4.3 and 7), each operation as one atomic step, so that
  concurrent callers are any interleaving of steps.
\<close>

text \<open>Modelled from the spec: a lease of the Run Gate (backend, absent), the session it
  was granted for and a serial number that tells two leases of one session apart.\<close>

record lease =
  lease_session :: jstring
  lease_no :: nat

text \<open>Modelled from the spec: the state of the Run Gate (backend, absent), the leases
  outstanding and the next serial number. There is no queue of waiting callers.\<close>

record gate =
  outstanding :: "lease list"
  next_no :: nat

text \<open>Modelled from the spec: the gate before any turn (backend, absent).\<close>

definition gate_initial :: gate where
  "gate_initial = \<lparr>outstanding = [], next_no = 0\<rparr>"

text \<open>Modelled from the spec: the result of \<open>acquire(session_id) -> Lease | Busy\<close>
  (backend, absent).\<close>

datatype acquired = Lease lease | Busy

text \<open>Modelled from the spec: the leases outstanding for one session (backend,
  absent).\<close>

definition leases_of :: "jstring \<Rightarrow> gate \<Rightarrow> lease list" where
  "leases_of sid g = filter (\<lambda>l. lease_session l = sid) (outstanding g)"

text \<open>Modelled from the spec: \<open>acquire\<close> of the Run Gate (backend, absent). "Exactly one
  lease may be outstanding per session_id. A second concurrent acquire for the same
  session fails fast with Busy rather than queuing indefinitely."\<close>

definition acquire :: "jstring \<Rightarrow> gate \<Rightarrow> acquired \<times> gate" where
  "acquire sid g =
     (if leases_of sid g \<noteq> [] then (Busy, g)
      else
        (let l = \<lparr>lease_session = sid, lease_no = next_no g\<rparr> in
         (Lease l, g\<lparr>outstanding := l # outstanding g, next_no := next_no g + 1\<rparr>)))"

text \<open>Modelled from the spec: \<open>release(lease)\<close> of the Run Gate (backend, absent);
  "release(lease) is idempotent": a lease that is not outstanding is ignored.\<close>

definition release :: "lease \<Rightarrow> gate \<Rightarrow> gate" where
  "release l g = g\<lparr>outstanding := removeAll l (outstanding g)\<rparr>"

text \<open>Modelled from the spec: the operations that callers of the Run Gate perform
  (backend, absent).\<close>

datatype gate_op = Acquire jstring | Release lease

text \<open>Modelled from the spec: any interleaving of gate operations by any number of
  callers (backend, absent): the results of the acquires, in order, and the gate after
  the last operation.\<close>

fun gate_run :: "gate_op list \<Rightarrow> gate \<Rightarrow> acquired list \<times> gate" where
  "gate_run [] g = ([], g)"
| "gate_run (Acquire sid # ops) g =
     (case acquire sid g of
        (a, g1) \<Rightarrow> (case gate_run ops g1 of (rs, g2) \<Rightarrow> (a # rs, g2)))"
| "gate_run (Release l # ops) g = gate_run ops (release l g)"

text \<open>Modelled from the spec: the status of a run, section 4.3 (backend, absent):
  "Queued -> InProgress -> {Completed, Failed, Cancelled, RequiresAction}".\<close>

datatype run_status = Queued | InProgress | RequiresAction | Completed | Failed | Cancelled

text \<open>Modelled from the spec: the errors of section 7 that end a run (backend,
  absent).\<close>

datatype run_error = UpstreamTransient | UpstreamFatal | UnsupportedAction | Timeout

text \<open>Modelled from the spec: what the Run Executor observes while it drives a run
  (backend, absent): the remote acknowledgement, an output delta, remote completion or
  failure, a required action (that the executor can resolve or not), a transient
  transport error, the client's disconnect, and the expiry of the no-progress timer.\<close>

datatype run_event =
    Acknowledged
  | Delta jstring
  | RemoteCompleted
  | RemoteFailed
  | ActionRequired bool
  | TransportError
  | ClientDisconnected
  | NoProgress

text \<open>Modelled from the spec: the Run of section 3 (backend, absent).\<close>

record run =
  run_session :: jstring
  submitted_turn :: jstring
  run_state :: run_status
  accumulated_output :: jstring
  run_failure :: "run_error option"
  attempts :: nat

text \<open>Modelled from the spec: the terminal statuses (backend, absent).\<close>

definition terminal :: "run_status \<Rightarrow> bool" where
  "terminal status_r = (status_r = Completed \<or> status_r = Failed \<or> status_r = Cancelled)"

text \<open>Modelled from the spec: one step of the state machine of section 4.3 (backend,
  absent), with the retry cap as a parameter. A required action is resolved at once or
  fails the run with UnsupportedAction, so RequiresAction is never left unresolved; a
  transient error is retried until the cap; a disconnect cancels; the timer fails the
  run.\<close>

definition run_step :: "nat \<Rightarrow> run_event \<Rightarrow> run \<Rightarrow> run" where
  "run_step cap ev r =
     (if terminal (run_state r) then r
      else
        (case ev of
           Acknowledged \<Rightarrow> if run_state r = Queued then r\<lparr>run_state := InProgress\<rparr> else r
         | Delta t \<Rightarrow>
             if run_state r = InProgress
             then r\<lparr>accumulated_output := accumulated_output r @ t\<rparr> else r
         | RemoteCompleted \<Rightarrow> r\<lparr>run_state := Completed\<rparr>
         | RemoteFailed \<Rightarrow> r\<lparr>run_state := Failed, run_failure := Some UpstreamFatal\<rparr>
         | ActionRequired resolvable \<Rightarrow>
             if resolvable then r\<lparr>run_state := InProgress\<rparr>
             else r\<lparr>run_state := Failed, run_failure := Some UnsupportedAction\<rparr>
         | TransportError \<Rightarrow>
             if attempts r + 1 < cap then r\<lparr>attempts := attempts r + 1\<rparr>
             else r\<lparr>run_state := Failed, run_failure := Some UpstreamTransient\<rparr>
         | ClientDisconnected \<Rightarrow> r\<lparr>run_state := Cancelled\<rparr>
         | NoProgress \<Rightarrow> r\<lparr>run_state := Failed, run_failure := Some Timeout\<rparr>))"

text \<open>Modelled from the spec: a run driven over the events it observes (backend,
  absent). "A run with no status change for a configurable interval is forced to Failed
  locally": a run whose events end before a terminal status times out.\<close>

definition drive :: "nat \<Rightarrow> run_event list \<Rightarrow> run \<Rightarrow> run" where
  "drive cap evs r =
     (let r1 = fold (run_step cap) evs r in
      if terminal (run_state r1) then r1
      else r1\<lparr>run_state := Failed, run_failure := Some Timeout\<rparr>)"

text \<open>Modelled from the spec: the Run Executor for one turn (backend, absent):
  "scoped acquisition with guaranteed release regardless of outcome". A turn that finds
  the gate busy starts no run.\<close>

definition run_executor ::
  "nat \<Rightarrow> jstring \<Rightarrow> jstring \<Rightarrow> run_event list \<Rightarrow> gate \<Rightarrow> run option \<times> gate" where
  "run_executor cap sid turn evs g =
     (case acquire sid g of
        (Busy, g1) \<Rightarrow> (None, g1)
      | (Lease l, g1) \<Rightarrow>
          (Some (drive cap evs
             \<lparr>run_session = sid, submitted_turn = turn, run_state = Queued,
              accumulated_output = [], run_failure = None, attempts = 0\<rparr>),
           release l g1))"

text \<open>Modelled from the spec: the invariant of the Run Gate (backend, absent), "exactly
  one lease may be outstanding per session_id": no two outstanding leases are for the
  same session.\<close>

definition one_lease_each :: "gate \<Rightarrow> bool" where
  "one_lease_each g = distinct (map lease_session (outstanding g))"

section \<open>Sample inputs\<close>

text \<open>
  Concrete inputs on which the theorems below are instantiated. \<open>sample_parse\<close> stands
  for \<open>JSON.parse\<close> on the payloads that occur in them: it skips the white space JSON
  allows around a value (space, TAB, LF, CR), recognises the two objects the sample
  server sends, and throws on everything else that occurs (fragments of an object, and
  text that is not JSON).
\<close>

definition json_space :: "nat \<Rightarrow> bool" where
  "json_space c = (c = 32 \<or> c = 9 \<or> c = 10 \<or> c = 13)"

definition sample_parse :: "jstring \<Rightarrow> event option" where
  \<open>sample_parse d =
     (let v = rev (dropWhile json_space (rev (dropWhile json_space d))) in
      if v = lit ''{"text":"Hel","session_id":"s1"}''
        then Some \<lparr>ev_text = Some (lit ''Hel''), ev_session_id = Some (lit ''s1'')\<rparr>
      else if v = lit ''{"text":"lo","session_id":"s2"}''
        then Some \<lparr>ev_text = Some (lit ''lo''), ev_session_id = Some (lit ''s2'')\<rparr>
      else None)\<close>

definition sample_clock :: clock where
  "sample_clock = \<lparr>now_user = 5, date_user = 6, now_reply = 99, date_reply = 100\<rparr>"

text \<open>A response body in two chunks; the first read ends inside a line that is not an
  event, and the second event has white space after its payload.\<close>

definition sample_chunks :: "jstring list" where
  \<open>sample_chunks =
     [lit ''data: {"text":"Hel","session_id":"s1"}\<newline>\<newline>da'',
      lit ''ta: junk\<newline>data: {"text":"lo","session_id":"s2"}  \<newline>\<newline>data: [DONE]\<newline>\<newline>'']\<close>

text \<open>
  The text of a response with two events and the terminal marker, and three ways the
  reads may deliver it: whole, cut after 60 code units (inside the second event), and
  cut after 20 code units (inside the first event).
\<close>

definition sample_stream :: jstring where
  \<open>sample_stream =
     lit ''data: {"text":"Hel","session_id":"s1"}\<newline>\<newline>data: {"text":"lo","session_id":"s2"}\<newline>\<newline>data: [DONE]\<newline>\<newline>''\<close>

definition reads_whole :: "jstring list" where
  "reads_whole = [sample_stream]"

definition reads_cut_second :: "jstring list" where
  "reads_cut_second = [take 60 sample_stream, drop 60 sample_stream]"

definition reads_cut_first :: "jstring list" where
  "reads_cut_first = [take 20 sample_stream, drop 20 sample_stream]"

text \<open>What the user does after a first turn, with React rendering in between: a further
  question, a second one while the first is in flight, the answer, the end.\<close>

definition sample_followup :: "chat_event list" where
  \<open>sample_followup =
     [Render, Ask sample_clock (lit ''more''),
      Render, Ask sample_clock (lit ''again''),
      Chunk 0 (lit ''data: {"text":"lo","session_id":"s2"}''),
      Finish 0 sample_clock LoopEnds,
      Render]\<close>

text \<open>Two calls of sendMessage from one render.\<close>

definition sample_double_call :: "chat_event list" where
  "sample_double_call = [Ask sample_clock (lit ''more''), Ask sample_clock (lit ''again'')]"

text \<open>A session of the callback form: a pasted number, another country, a submit.\<close>

definition sample_form_events :: "form_event list" where
  "sample_form_events =
     [ChangePhone (lit ''+44 (0)7911-123 456''),
      ChangeCountry (lit ''+33''),
      Submit None (CallResponse True (BodyDetail None))]"

text \<open>Callers of the gate: two sessions, a second turn on the first session while it
  is held, a release repeated, and a turn after it. Then the gate they leave, and four
  runs of a third session: one that completes, one that needs an action the executor
  cannot resolve, one whose client disconnects, and one that stops making progress.\<close>

definition sample_gate_ops :: "gate_op list" where
  "sample_gate_ops =
     [Acquire (lit ''s1''), Acquire (lit ''s2''), Acquire (lit ''s1''),
      Release \<lparr>lease_session = lit ''s1'', lease_no = 0\<rparr>,
      Release \<lparr>lease_session = lit ''s1'', lease_no = 0\<rparr>,
      Acquire (lit ''s1'')]"

definition sample_gate :: gate where
  "sample_gate =
     \<lparr>outstanding = [\<lparr>lease_session = lit ''s1'', lease_no = 2\<rparr>,
                     \<lparr>lease_session = lit ''s2'', lease_no = 1\<rparr>],
      next_no = 3\<rparr>"

definition sample_paths :: "run_event list list" where
  "sample_paths =
     [[Acknowledged, Delta (lit ''Hel''), Delta (lit ''lo''), RemoteCompleted],
      [Acknowledged, ActionRequired False],
      [Acknowledged, Delta (lit ''Hel''), ClientDisconnected],
      [Acknowledged, Delta (lit ''Hel'')]]"

section \<open>The streaming loop of sendMessage\<close>

lemma map_filter_append: "List.map_filter f (xs @ ys) = List.map_filter f xs @ List.map_filter f ys"
  by (simp add: List.map_filter_def)

lemma sendMessage_read_lines:
  "sendMessage_read P chunks acc = fold (sendMessage_line P) (sse_lines chunks) acc"
  by (induction chunks arbitrary: acc)
    (simp_all add: sendMessage_read_def sendMessage_chunk_def sse_lines_def)

lemma line_streamingRef:
  "streamingRef (fst (sendMessage_line P l acc)) =
     streamingRef (fst acc) @ concat (map delta_text (List.map_filter (delta_event P) [l]))"
  by (cases acc)
    (simp add: sendMessage_line_def delta_event_def delta_text_def List.map_filter_simps Let_def
      split: option.splits)

lemma line_streamingContent:
  "streamingContent (fst acc) = streamingRef (fst acc) \<Longrightarrow>
   streamingContent (fst (sendMessage_line P l acc)) = streamingRef (fst (sendMessage_line P l acc))"
  by (cases acc)
    (simp add: sendMessage_line_def Let_def split: option.splits)

lemma line_unchanged:
  "messages (fst (sendMessage_line P l acc)) = messages (fst acc)"
  "isLoading (fst (sendMessage_line P l acc)) = isLoading (fst acc)"
  "input (fst (sendMessage_line P l acc)) = input (fst acc)"
  by (cases acc, simp add: sendMessage_line_def Let_def split: option.splits)+

lemma lines_streamingRef:
  "streamingRef (fst (fold (sendMessage_line P) ls acc)) =
     streamingRef (fst acc) @ concat (map delta_text (List.map_filter (delta_event P) ls))"
proof (induction ls arbitrary: acc)
  case Nil
  show ?case by (simp add: List.map_filter_simps)
next
  case (Cons l ls)
  have "List.map_filter (delta_event P) (l # ls) =
      List.map_filter (delta_event P) [l] @ List.map_filter (delta_event P) ls"
    using map_filter_append [of "delta_event P" "[l]" ls] by simp
  then show ?case
    by (simp add: Cons.IH line_streamingRef)
qed

lemma lines_streamingContent:
  "streamingContent (fst acc) = streamingRef (fst acc) \<Longrightarrow>
   streamingContent (fst (fold (sendMessage_line P) ls acc)) =
     streamingRef (fst (fold (sendMessage_line P) ls acc))"
  by (induction ls arbitrary: acc) (simp_all add: line_streamingContent)

lemma lines_unchanged:
  "messages (fst (fold (sendMessage_line P) ls acc)) = messages (fst acc)"
  "isLoading (fst (fold (sendMessage_line P) ls acc)) = isLoading (fst acc)"
  by (induction ls arbitrary: acc) (simp_all add: line_unchanged)

lemma read_streamingRef:
  "streamingRef (fst (sendMessage_read P chunks acc)) =
     streamingRef (fst acc) @ concat (map delta_text (delta_events P chunks))"
  by (simp add: sendMessage_read_lines lines_streamingRef delta_events_def)

lemma read_streamingContent:
  "streamingContent (fst acc) = streamingRef (fst acc) \<Longrightarrow>
   streamingContent (fst (sendMessage_read P chunks acc)) =
     streamingRef (fst (sendMessage_read P chunks acc))"
  by (simp add: sendMessage_read_lines lines_streamingContent)

lemma read_messages:
  "messages (fst (sendMessage_read P chunks acc)) = messages (fst acc)"
  by (simp add: sendMessage_read_lines lines_unchanged)

text \<open>
  What the loop computes. When a submitted turn's response is read to the end, the
  transcript gains the user message and then one assistant message whose content is the
  concatenation, in arrival order, of the texts of the events that the client finds in
  the lines of each chunk taken on its own; what is rendered while streaming is the
  same concatenation over the chunks read so far.
\<close>

lemma sendMessage_per_chunk:
  assumes "trim messageText \<noteq> []" and "\<not> isLoading s0"
  shows "messages (fst (sendMessage P clk (Response True (Some (chunks, StreamDone))) messageText s0)) =
      messages s0 @
        [\<lparr>id_msg = toString (now_user clk), role = User,
          content = trim messageText, timestamp = date_user clk\<rparr>,
         \<lparr>id_msg = toString (now_reply clk + 1), role = Assistant,
          content = concat (map delta_text (delta_events P chunks)),
          timestamp = date_reply clk\<rparr>]
    \<and> streamingContent
        (fst (sendMessage_read P chunks (fst (sendMessage_start clk messageText s0 s0), sessionId s0))) =
      concat (map delta_text (delta_events P chunks))"
proof -
  let ?s1 = "fst (sendMessage_start clk messageText s0 s0)"
  have start: "sendMessage_start clk messageText s0 s0 =
      (?s1, Some \<lparr>req_message = trim messageText, req_session_id = sessionId s0\<rparr>)"
    using assms by (simp add: sendMessage_start_def)
  have ref1: "streamingRef ?s1 = []" and cont1: "streamingContent ?s1 = []"
    and msgs1: "messages ?s1 = messages s0 @
        [\<lparr>id_msg = toString (now_user clk), role = User,
          content = trim messageText, timestamp = date_user clk\<rparr>]"
    using assms by (simp_all add: sendMessage_start_def)
  let ?s2 = "fst (sendMessage_read P chunks (?s1, sessionId s0))"
  have ref2: "streamingRef ?s2 = concat (map delta_text (delta_events P chunks))"
    by (simp add: read_streamingRef ref1)
  have cont2: "streamingContent ?s2 = streamingRef ?s2"
    by (rule read_streamingContent) (simp add: ref1 cont1)
  have msgs2: "messages ?s2 = messages ?s1"
    by (simp add: read_messages)
  have "sendMessage P clk (Response True (Some (chunks, StreamDone))) messageText s0 =
      (sendMessage_settle P clk (Response True (Some (chunks, StreamDone))) (sessionId s0) ?s1,
       [\<lparr>req_message = trim messageText, req_session_id = sessionId s0\<rparr>])"
    by (subst sendMessage_def, subst start) simp
  moreover have "messages (sendMessage_settle P clk (Response True (Some (chunks, StreamDone)))
      (sessionId s0) ?s1) = messages ?s2 @
        [\<lparr>id_msg = toString (now_reply clk + 1), role = Assistant,
          content = streamingRef ?s2, timestamp = date_reply clk\<rparr>]"
    by (simp add: sendMessage_settle_def sendMessage_complete_def Let_def)
  ultimately show ?thesis
    using ref2 cont2 msgs2 msgs1 by simp
qed

lemma sample_trim: "trim (lit '' Hi '') = lit ''Hi''"
  by (simp add: trim_def lit_def js_space_def)

lemma sample_trim_ne: "trim (lit '' Hi '') \<noteq> []"
  by (simp add: sample_trim) (simp add: lit_def)

lemma sample_idle: "\<not> isLoading chat_initial" "sessionId chat_initial = None"
  "messages chat_initial = []"
  by (simp_all add: chat_initial_def)

lemma sample_numbers: "toString 5 = lit ''5''" "toString 100 = lit ''100''"
  by (simp_all add: lit_def toString.simps)

lemma sample_parse_simps:
  \<open>sample_parse (lit ''{"text":"Hel","session_id":"s1"}'') =
     Some \<lparr>ev_text = Some (lit ''Hel''), ev_session_id = Some (lit ''s1'')\<rparr>\<close>
  \<open>sample_parse (lit ''{"text":"lo","session_id":"s2"}'') =
     Some \<lparr>ev_text = Some (lit ''lo''), ev_session_id = Some (lit ''s2'')\<rparr>\<close>
  \<open>sample_parse (lit ''{"text":"lo","session_id":"s2"}  '') =
     Some \<lparr>ev_text = Some (lit ''lo''), ev_session_id = Some (lit ''s2'')\<rparr>\<close>
  \<open>sample_parse (lit ''{"text":"Hel",'') = None\<close>
  \<open>sample_parse (lit ''{"text":"lo","ses'') = None\<close>
  \<open>sample_parse (lit ''junk'') = None\<close>
  by (simp_all add: sample_parse_def json_space_def Let_def lit_def)

lemma sample_events:
  "delta_events sample_parse sample_chunks =
     [\<lparr>ev_text = Some (lit ''Hel''), ev_session_id = Some (lit ''s1'')\<rparr>,
      \<lparr>ev_text = Some (lit ''lo''), ev_session_id = Some (lit ''s2'')\<rparr>]"
  by (simp add: delta_events_def sse_lines_def sample_chunks_def lit_def delta_event_def
      startsWith_def slice_def trim_def js_space_def sample_parse_def json_space_def Let_def
      List.map_filter_simps)

lemma reads_same_stream:
  "concat reads_cut_second = sample_stream" "concat reads_cut_first = sample_stream"
  "concat reads_whole = sample_stream"
  by (simp_all add: reads_cut_second_def reads_cut_first_def reads_whole_def)

lemma sample_stream_events:
  "List.map_filter (delta_event sample_parse) (split_nl sample_stream) =
     [\<lparr>ev_text = Some (lit ''Hel''), ev_session_id = Some (lit ''s1'')\<rparr>,
      \<lparr>ev_text = Some (lit ''lo''), ev_session_id = Some (lit ''s2'')\<rparr>]"
  by (simp add: sample_stream_def lit_def delta_event_def
      startsWith_def slice_def trim_def js_space_def sample_parse_def json_space_def Let_def
      List.map_filter_simps)

lemma reads_whole_events:
  "delta_events sample_parse reads_whole =
     [\<lparr>ev_text = Some (lit ''Hel''), ev_session_id = Some (lit ''s1'')\<rparr>,
      \<lparr>ev_text = Some (lit ''lo''), ev_session_id = Some (lit ''s2'')\<rparr>]"
  by (simp add: delta_events_def sse_lines_def reads_whole_def sample_stream_events)

lemma reads_cut_second_events:
  "delta_events sample_parse reads_cut_second =
     [\<lparr>ev_text = Some (lit ''Hel''), ev_session_id = Some (lit ''s1'')\<rparr>]"
  by (simp add: delta_events_def sse_lines_def reads_cut_second_def sample_stream_def lit_def
      delta_event_def startsWith_def slice_def trim_def js_space_def sample_parse_def
      json_space_def Let_def List.map_filter_simps)

lemma reads_cut_first_events:
  "delta_events sample_parse reads_cut_first =
     [\<lparr>ev_text = Some (lit ''lo''), ev_session_id = Some (lit ''s2'')\<rparr>]"
  by (simp add: delta_events_def sse_lines_def reads_cut_first_def sample_stream_def lit_def
      delta_event_def startsWith_def slice_def trim_def js_space_def sample_parse_def
      json_space_def Let_def List.map_filter_simps)

text \<open>
  C3. The claim fails on the code. The same response text is delivered once in one read
  and once in two reads, the second read starting inside the second event. The events
  received are the same, and their texts concatenate to \<open>Hello\<close>; the client finalizes
  \<open>Hello\<close> in the first case and \<open>Hel\<close> in the second: it splits every chunk into
  lines on its own and keeps no partial line from one read to the next, so the event
  that the cut falls in is lost.
\<close>

theorem sendMessage_drops_cut_event:
  "concat reads_cut_second = concat reads_whole
   \<and> concat (map delta_text (stream_events sample_parse reads_cut_second)) = lit ''Hello''
   \<and> map content (messages (fst (sendMessage sample_parse sample_clock
        (Response True (Some (reads_whole, StreamDone))) (lit '' Hi '') chat_initial))) =
       [lit ''Hi'', lit ''Hello'']
   \<and> map content (messages (fst (sendMessage sample_parse sample_clock
        (Response True (Some (reads_cut_second, StreamDone))) (lit '' Hi '') chat_initial))) =
       [lit ''Hi'', lit ''Hel'']"
proof -
  have "concat (map delta_text (stream_events sample_parse reads_cut_second)) = lit ''Hello''"
    by (simp add: stream_events_def reads_same_stream sample_stream_events delta_text_def lit_def)
  moreover have "map content (messages (fst (sendMessage sample_parse sample_clock
        (Response True (Some (reads_whole, StreamDone))) (lit '' Hi '') chat_initial))) =
       [lit ''Hi'', lit ''Hello'']"
    using sendMessage_per_chunk [OF sample_trim_ne sample_idle(1), of sample_parse sample_clock
        reads_whole]
    by (simp add: reads_whole_events delta_text_def sample_trim sample_idle) (simp add: lit_def)
  moreover have "map content (messages (fst (sendMessage sample_parse sample_clock
        (Response True (Some (reads_cut_second, StreamDone))) (lit '' Hi '') chat_initial))) =
       [lit ''Hi'', lit ''Hel'']"
    using sendMessage_per_chunk [OF sample_trim_ne sample_idle(1), of sample_parse sample_clock
        reads_cut_second]
    by (simp add: reads_cut_second_events delta_text_def sample_trim sample_idle)
  ultimately show ?thesis
    by (simp add: reads_same_stream)
qed

section \<open>The session id\<close>

lemma first_sid_lines_Cons:
  "first_sid_lines P (l # ls) =
     (case delta_event P l of
        None \<Rightarrow> first_sid_lines P ls
      | Some ev \<Rightarrow> if truthy (ev_session_id ev) then ev_session_id ev else first_sid_lines P ls)"
  by (simp add: first_sid_lines_def first_session_id_def List.map_filter_simps split: option.splits)

lemma line_session:
  "sendMessage_line P l (s0, c) = (s1, c1) \<Longrightarrow>
   (if truthy c then sessionId s1 = sessionId s0 \<and> c1 = c
    else (case delta_event P l of
            None \<Rightarrow> sessionId s1 = sessionId s0 \<and> c1 = c
          | Some ev \<Rightarrow>
              if truthy (ev_session_id ev) then sessionId s1 = ev_session_id ev \<and> c1 = ev_session_id ev
              else sessionId s1 = sessionId s0 \<and> c1 = c))"
  by (auto simp add: sendMessage_line_def delta_event_def Let_def split: option.splits if_splits)

lemma lines_session_kept:
  "truthy c \<Longrightarrow> fold (sendMessage_line P) ls (s0, c) = (s1, c1) \<Longrightarrow>
   sessionId s1 = sessionId s0 \<and> c1 = c"
proof (induction ls arbitrary: s0 s1 c1)
  case Nil
  then show ?case by simp
next
  case (Cons l ls)
  obtain s' c' where step: "sendMessage_line P l (s0, c) = (s', c')"
    by (cases "sendMessage_line P l (s0, c)")
  with line_session [OF step] Cons.prems(1) have "sessionId s' = sessionId s0" "c' = c"
    by simp_all
  moreover from Cons.prems(2) step have "fold (sendMessage_line P) ls (s', c') = (s1, c1)"
    by simp
  ultimately show ?case
    using Cons.IH [of s' s1 c1] Cons.prems(1) by simp
qed

lemma lines_session_first:
  "\<not> truthy c \<Longrightarrow> fold (sendMessage_line P) ls (s0, c) = (s1, c1) \<Longrightarrow>
   (case first_sid_lines P ls of
      None \<Rightarrow> sessionId s1 = sessionId s0 \<and> c1 = c
    | Some x \<Rightarrow> sessionId s1 = Some x \<and> c1 = Some x)"
proof (induction ls arbitrary: s0 s1 c1 c)
  case Nil
  then show ?case by (simp add: first_sid_lines_def first_session_id_def List.map_filter_simps)
next
  case (Cons l ls)
  obtain s' c' where step: "sendMessage_line P l (s0, c) = (s', c')"
    by (cases "sendMessage_line P l (s0, c)")
  from Cons.prems(2) step have rest: "fold (sendMessage_line P) ls (s', c') = (s1, c1)"
    by simp
  show ?case
  proof (cases "\<exists>ev. delta_event P l = Some ev \<and> truthy (ev_session_id ev)")
    case True
    then obtain ev where ev: "delta_event P l = Some ev" "truthy (ev_session_id ev)"
      by blast
    with line_session [OF step] Cons.prems(1)
    have "sessionId s' = ev_session_id ev" "c' = ev_session_id ev"
      by simp_all
    with lines_session_kept [OF _ rest] ev(2)
    have "sessionId s1 = ev_session_id ev" "c1 = ev_session_id ev"
      by simp_all
    moreover from ev(2) obtain x where "ev_session_id ev = Some x"
      by (cases "ev_session_id ev") (simp_all add: truthy_def)
    ultimately show ?thesis
      using ev by (simp add: first_sid_lines_Cons)
  next
    case False
    with line_session [OF step] Cons.prems(1)
    have same: "sessionId s' = sessionId s0" "c' = c"
      by (auto split: option.splits if_splits)
    from False have "first_sid_lines P (l # ls) = first_sid_lines P ls"
      by (auto simp add: first_sid_lines_Cons split: option.splits)
    with Cons.IH [of c' s' s1 c1] rest same Cons.prems(1) show ?thesis
      by (simp split: option.splits)
  qed
qed

lemma read_session_kept:
  "truthy c \<Longrightarrow> sessionId (fst (sendMessage_read P chunks (s0, c))) = sessionId s0"
  using lines_session_kept [of c P "sse_lines chunks" s0]
  by (cases "fold (sendMessage_line P) (sse_lines chunks) (s0, c)")
    (simp add: sendMessage_read_lines)

lemma read_session_first:
  "\<not> truthy c \<Longrightarrow>
   sessionId (fst (sendMessage_read P chunks (s0, c))) =
     (case first_session_id (delta_events P chunks) of None \<Rightarrow> sessionId s0 | Some x \<Rightarrow> Some x)"
  using lines_session_first [of c P "sse_lines chunks" s0]
  by (cases "fold (sendMessage_line P) (sse_lines chunks) (s0, c)")
    (auto simp add: sendMessage_read_lines first_sid_lines_def delta_events_def split: option.splits)

lemma settle_sessionId:
  "sessionId (sendMessage_settle P clk res c s0) =
     (case res of
        FetchRejects \<Rightarrow> sessionId s0
      | Response ok body \<Rightarrow>
          if \<not> ok then sessionId s0
          else (case body of
                  None \<Rightarrow> sessionId s0
                | Some (chunks, e) \<Rightarrow> sessionId (fst (sendMessage_read P chunks (s0, c)))))"
  by (simp add: sendMessage_settle_def sendMessage_catch_def sendMessage_complete_def Let_def
      split: fetch_result.splits option.splits stream_end.splits prod.splits)

lemma sendMessage_submitted:
  assumes "trim messageText \<noteq> []" and "\<not> isLoading s0"
  shows "sendMessage P clk res messageText s0 =
      (sendMessage_settle P clk res (sessionId s0) (fst (sendMessage_start clk messageText s0 s0)),
       [\<lparr>req_message = trim messageText, req_session_id = sessionId s0\<rparr>])"
  using assms by (simp add: sendMessage_def sendMessage_start_def)

text \<open>
  What the code does with session ids. A turn submitted from a render without a session
  id keeps the id the component has if no event that the client finds in the chunks
  carries one, and otherwise sets the first id that such an event carries (a field that
  is absent or the empty string carries none: the source tests it for truthiness).
\<close>

lemma sendMessage_session:
  assumes "trim messageText \<noteq> []" and "\<not> isLoading s0" and "\<not> truthy (sessionId s0)"
  shows "sessionId (fst (sendMessage P clk (Response True (Some (chunks, e))) messageText s0)) =
     (case first_session_id (delta_events P chunks) of None \<Rightarrow> sessionId s0 | Some x \<Rightarrow> Some x)"
proof -
  have "sessionId (fst (sendMessage_start clk messageText s0 s0)) = sessionId s0"
    by (simp add: sendMessage_start_def)
  with assms show ?thesis
    by (simp add: sendMessage_submitted settle_sessionId read_session_first split: option.splits)
qed

lemma sample_stream_first:
  "first_session_id (stream_events sample_parse reads_cut_first) = Some (lit ''s1'')"
  by (simp add: stream_events_def reads_same_stream sample_stream_events first_session_id_def
      truthy_def lit_def)

text \<open>
  C4. The claim fails on the code, by the defect of C3. The same response text is
  delivered once in one read and once in two reads, the second read starting inside the
  first event. The first session id carried by a streamed event is \<open>s1\<close> in both
  cases. The client persists \<open>s1\<close> in the first case; in the second it loses the event
  that the cut falls in, persists \<open>s2\<close>, the id of the second event, and sends \<open>s2\<close>
  with the next request of the conversation.
\<close>

theorem sendMessage_misses_first_session_id:
  "concat reads_cut_first = concat reads_whole
   \<and> first_session_id (stream_events sample_parse reads_cut_first) = Some (lit ''s1'')
   \<and> sessionId (fst (sendMessage sample_parse sample_clock
        (Response True (Some (reads_whole, StreamDone))) (lit '' Hi '') chat_initial)) =
       Some (lit ''s1'')
   \<and> sessionId (fst (sendMessage sample_parse sample_clock
        (Response True (Some (reads_cut_first, StreamDone))) (lit '' Hi '') chat_initial)) =
       Some (lit ''s2'')
   \<and> snd (sendMessage sample_parse sample_clock FetchRejects (lit '' Hi '')
        (fst (sendMessage sample_parse sample_clock
          (Response True (Some (reads_cut_first, StreamDone))) (lit '' Hi '') chat_initial))) =
       [\<lparr>req_message = lit ''Hi'', req_session_id = Some (lit ''s2'')\<rparr>]"
proof -
  have no_id: "\<not> truthy (sessionId chat_initial)"
    by (simp add: chat_initial_def truthy_def)
  have whole: "sessionId (fst (sendMessage sample_parse sample_clock
        (Response True (Some (reads_whole, StreamDone))) (lit '' Hi '') chat_initial)) =
       Some (lit ''s1'')"
    using sendMessage_session [OF sample_trim_ne sample_idle(1) no_id, of sample_parse sample_clock
        reads_whole StreamDone]
    by (simp add: reads_whole_events first_session_id_def truthy_def lit_def)
  have cut: "sessionId (fst (sendMessage sample_parse sample_clock
        (Response True (Some (reads_cut_first, StreamDone))) (lit '' Hi '') chat_initial)) =
       Some (lit ''s2'')"
    using sendMessage_session [OF sample_trim_ne sample_idle(1) no_id, of sample_parse sample_clock
        reads_cut_first StreamDone]
    by (simp add: reads_cut_first_events first_session_id_def truthy_def lit_def)
  have idle: "\<not> isLoading (fst (sendMessage sample_parse sample_clock
        (Response True (Some (reads_cut_first, StreamDone))) (lit '' Hi '') chat_initial))"
    by (simp add: sendMessage_submitted sample_trim_ne sample_idle sendMessage_settle_def Let_def)
  have "snd (sendMessage sample_parse sample_clock FetchRejects (lit '' Hi '')
        (fst (sendMessage sample_parse sample_clock
          (Response True (Some (reads_cut_first, StreamDone))) (lit '' Hi '') chat_initial))) =
       [\<lparr>req_message = lit ''Hi'', req_session_id = Some (lit ''s2'')\<rparr>]"
    by (simp add: sendMessage_submitted [OF sample_trim_ne idle] cut sample_trim)
  with whole cut show ?thesis
    by (simp add: reads_same_stream sample_stream_first)
qed

section \<open>Errors of a streaming request\<close>

lemma read_isLoading:
  "isLoading (fst (sendMessage_read P chunks acc)) = isLoading (fst acc)"
  by (simp add: sendMessage_read_lines lines_unchanged)

lemma start_messages:
  "trim messageText \<noteq> [] \<Longrightarrow> \<not> isLoading s0 \<Longrightarrow>
   messages (fst (sendMessage_start clk messageText s0 s0)) =
     messages s0 @ [\<lparr>id_msg = toString (now_user clk), role = User,
       content = trim messageText, timestamp = date_user clk\<rparr>]"
  by (simp add: sendMessage_start_def)

lemma settle_cases:
  "\<exists>s2. messages s2 = messages s1 \<and>
     (if request_errors res
      then sendMessage_settle P clk res c s1 = (sendMessage_catch clk s2)\<lparr>isLoading := False\<rparr>
      else sendMessage_settle P clk res c s1 = (sendMessage_complete clk s2)\<lparr>isLoading := False\<rparr>)"
proof (cases res)
  case FetchRejects
  then have "sendMessage_settle P clk res c s1 = (sendMessage_catch clk s1)\<lparr>isLoading := False\<rparr>"
    and "request_errors res"
    by (simp_all add: sendMessage_settle_def request_errors_def)
  then show ?thesis by auto
next
  case (Response ok body)
  show ?thesis
  proof (cases "ok \<and> body \<noteq> None")
    case False
    with Response
    have "sendMessage_settle P clk res c s1 = (sendMessage_catch clk s1)\<lparr>isLoading := False\<rparr>"
      and "request_errors res"
      by (cases body; simp add: sendMessage_settle_def request_errors_def)+
    then show ?thesis by auto
  next
    case True
    then obtain chunks e where body: "body = Some (chunks, e)" by auto
    let ?s2 = "fst (sendMessage_read P chunks (s1, c))"
    have m: "messages ?s2 = messages s1"
      by (simp add: read_messages)
    show ?thesis
    proof (cases e)
      case StreamDone
      with Response True body
      have "sendMessage_settle P clk res c s1 = (sendMessage_complete clk ?s2)\<lparr>isLoading := False\<rparr>"
        and "\<not> request_errors res"
        by (simp_all add: sendMessage_settle_def request_errors_def Let_def)
      with m show ?thesis by auto
    next
      case ReadThrows
      with Response True body
      have "sendMessage_settle P clk res c s1 = (sendMessage_catch clk ?s2)\<lparr>isLoading := False\<rparr>"
        and "request_errors res"
        by (simp_all add: sendMessage_settle_def request_errors_def Let_def)
      with m show ?thesis by auto
    qed
  qed
qed

lemma settle_error:
  assumes "request_errors res"
  shows "\<exists>s2. sendMessage_settle P clk res c s1 = (sendMessage_catch clk s2)\<lparr>isLoading := False\<rparr>
      \<and> messages s2 = messages s1"
  using settle_cases [of s1 res P clk c] assms by auto

text \<open>
  C5. When a submitted turn's request errors (\<open>fetch\<close> rejects, the status is not OK,
  the body is missing, or a read of the stream throws), the transcript gains the user
  message and exactly one assistant message with the fallback text; the streaming
  buffer (the ref and the rendered copy) is empty and the loading flag is reset.
\<close>

text \<open>
  C5. When a submitted turn's request errors (\<open>fetch\<close> rejects, the status is not OK,
  the body is missing, or a read of the stream throws), the transcript gains the user
  message and exactly one assistant message with the fallback text; the streaming
  buffer (the ref and the rendered copy) is empty and the loading flag is reset.
\<close>

theorem sendMessage_error_fallback:
  assumes "trim messageText \<noteq> []" and "\<not> isLoading s0" and "request_errors res"
  shows "messages (fst (sendMessage P clk res messageText s0)) =
      messages s0 @
        [\<lparr>id_msg = toString (now_user clk), role = User,
          content = trim messageText, timestamp = date_user clk\<rparr>,
         \<lparr>id_msg = toString (now_reply clk + 1), role = Assistant,
          content = fallback_text, timestamp = date_reply clk\<rparr>]
    \<and> streamingRef (fst (sendMessage P clk res messageText s0)) = []
    \<and> streamingContent (fst (sendMessage P clk res messageText s0)) = []
    \<and> isLoading (fst (sendMessage P clk res messageText s0)) = False"
proof -
  let ?s1 = "fst (sendMessage_start clk messageText s0 s0)"
  have whole: "fst (sendMessage P clk res messageText s0) =
      sendMessage_settle P clk res (sessionId s0) ?s1"
    using assms(1,2) by (simp add: sendMessage_submitted)
  have m1: "messages ?s1 = messages s0 @ [\<lparr>id_msg = toString (now_user clk), role = User,
       content = trim messageText, timestamp = date_user clk\<rparr>]"
    using assms(1,2) by (rule start_messages)
  obtain s2 where s2: "sendMessage_settle P clk res (sessionId s0) ?s1 =
      (sendMessage_catch clk s2)\<lparr>isLoading := False\<rparr>" "messages s2 = messages ?s1"
    using settle_error [OF assms(3), of P clk "sessionId s0" ?s1] by blast
  show ?thesis
    unfolding whole s2(1)
    by (simp add: sendMessage_catch_def s2(2) m1)
qed

theorem sendMessage_error_fallback_witness:
  "trim (lit '' Hi '') \<noteq> [] \<and> \<not> isLoading chat_initial
   \<and> request_errors (Response True (Some (sample_chunks, ReadThrows)))
   \<and> messages (fst (sendMessage sample_parse sample_clock
        (Response True (Some (sample_chunks, ReadThrows))) (lit '' Hi '') chat_initial)) =
      [\<lparr>id_msg = lit ''5'', role = User, content = lit ''Hi'', timestamp = 6\<rparr>,
       \<lparr>id_msg = lit ''100'', role = Assistant, content = fallback_text, timestamp = 100\<rparr>]
   \<and> streamingRef (fst (sendMessage sample_parse sample_clock
        (Response True (Some (sample_chunks, ReadThrows))) (lit '' Hi '') chat_initial)) = []
   \<and> streamingContent (fst (sendMessage sample_parse sample_clock
        (Response True (Some (sample_chunks, ReadThrows))) (lit '' Hi '') chat_initial)) = []
   \<and> isLoading (fst (sendMessage sample_parse sample_clock
        (Response True (Some (sample_chunks, ReadThrows))) (lit '' Hi '') chat_initial)) = False"
proof -
  have e: "request_errors (Response True (Some (sample_chunks, ReadThrows)))"
    by (simp add: request_errors_def)
  show ?thesis
    using sendMessage_error_fallback [OF sample_trim_ne sample_idle(1) e, of sample_parse sample_clock]
      sample_trim_ne sample_idle e
    by (simp add: sample_trim sample_clock_def sample_numbers)
qed

subsection \<open>A call alone is the whole function\<close>

text \<open>
  When nothing else happens while a call of sendMessage runs, the steps of the
  transition system compose to the function \<open>sendMessage\<close>.
\<close>

lemma chat_run_chunks:
  "inflight u = [f] \<Longrightarrow>
   chat_run P (map (Chunk 0) chunks) u =
     u\<lparr>st := fst (sendMessage_read P chunks (st u, flight_newSessionId f)),
       inflight := [f\<lparr>flight_newSessionId :=
         snd (sendMessage_read P chunks (st u, flight_newSessionId f))\<rparr>]\<rparr>"
proof (induction chunks arbitrary: u f)
  case Nil
  then show ?case
    by (simp add: chat_run_def sendMessage_read_def)
next
  case (Cons c cs)
  let ?a = "sendMessage_chunk P c (st u, flight_newSessionId f)"
  let ?u1 = "u\<lparr>st := fst ?a, inflight := [f\<lparr>flight_newSessionId := snd ?a\<rparr>]\<rparr>"
  have step: "chat_step P (Chunk 0 c) u = ?u1"
    using Cons.prems by (simp add: case_prod_beta)
  have "chat_run P (map (Chunk 0) (c # cs)) u = chat_run P (map (Chunk 0) cs) ?u1"
    by (simp add: chat_run_def step del: chat_step.simps)
  also have "\<dots> = ?u1\<lparr>st := fst (sendMessage_read P cs (st ?u1, flight_newSessionId (f\<lparr>flight_newSessionId := snd ?a\<rparr>))),
       inflight := [(f\<lparr>flight_newSessionId := snd ?a\<rparr>)\<lparr>flight_newSessionId :=
         snd (sendMessage_read P cs (st ?u1, flight_newSessionId (f\<lparr>flight_newSessionId := snd ?a\<rparr>)))\<rparr>]\<rparr>"
    by (rule Cons.IH) simp
  finally show ?case
    by (simp add: sendMessage_read_def)
qed

lemma chat_run_turn:
  assumes "shown u = st u" and "inflight u = []" and "trim messageText \<noteq> []"
    and "\<not> isLoading (st u)"
  shows "st (chat_run P (Ask clk messageText # map (Chunk 0) chunks @ [Finish 0 clk LoopEnds]) u) =
      fst (sendMessage P clk (Response True (Some (chunks, StreamDone))) messageText (st u))"
    and "st (chat_run P (Ask clk messageText # map (Chunk 0) chunks @ [Finish 0 clk TryThrows]) u) =
      fst (sendMessage P clk (Response True (Some (chunks, ReadThrows))) messageText (st u))"
proof -
  let ?s1 = "fst (sendMessage_start clk messageText (st u) (st u))"
  let ?req = "\<lparr>req_message = trim messageText, req_session_id = sessionId (st u)\<rparr>"
  let ?f = "\<lparr>flight_request = ?req, flight_newSessionId = sessionId (st u)\<rparr>"
  let ?u1 = "u\<lparr>st := ?s1, inflight := [?f], sent := sent u @ [?req]\<rparr>"
  have ask: "chat_step P (Ask clk messageText) u = ?u1"
    using assms by (simp add: sendMessage_start_def)
  have chunks: "chat_run P (map (Chunk 0) chunks) ?u1 =
      ?u1\<lparr>st := fst (sendMessage_read P chunks (?s1, sessionId (st u))),
        inflight := [?f\<lparr>flight_newSessionId :=
          snd (sendMessage_read P chunks (?s1, sessionId (st u)))\<rparr>]\<rparr>"
    using chat_run_chunks [of ?u1 ?f P chunks] by simp
  have run: "chat_run P (Ask clk messageText # map (Chunk 0) chunks @ [Finish 0 clk e]) u =
      chat_step P (Finish 0 clk e) (chat_run P (map (Chunk 0) chunks) ?u1)" for e
    by (simp add: chat_run_def ask del: chat_step.simps)
  have whole: "fst (sendMessage P clk res messageText (st u)) =
      sendMessage_settle P clk res (sessionId (st u)) ?s1" for res
    using assms by (simp add: sendMessage_submitted)
  show "st (chat_run P (Ask clk messageText # map (Chunk 0) chunks @ [Finish 0 clk LoopEnds]) u) =
      fst (sendMessage P clk (Response True (Some (chunks, StreamDone))) messageText (st u))"
    unfolding run chunks whole by (simp add: sendMessage_settle_def Let_def)
  show "st (chat_run P (Ask clk messageText # map (Chunk 0) chunks @ [Finish 0 clk TryThrows]) u) =
      fst (sendMessage P clk (Response True (Some (chunks, ReadThrows))) messageText (st u))"
    unfolding run chunks whole by (simp add: sendMessage_settle_def Let_def)
qed

section \<open>The transcript\<close>

lemma settle_messages:
  obtains m where "messages (sendMessage_settle P clk res c s1) = messages s1 @ [m]"
    and "role m = Assistant"
proof -
  obtain s2 where s2: "messages s2 = messages s1"
    "sendMessage_settle P clk res c s1 = (sendMessage_catch clk s2)\<lparr>isLoading := False\<rparr>
     \<or> sendMessage_settle P clk res c s1 = (sendMessage_complete clk s2)\<lparr>isLoading := False\<rparr>"
    using settle_cases [of s1 res P clk c] by (auto split: if_splits)
  from s2(2) show ?thesis
  proof
    assume a: "sendMessage_settle P clk res c s1 = (sendMessage_catch clk s2)\<lparr>isLoading := False\<rparr>"
    have "messages ((sendMessage_catch clk s2)\<lparr>isLoading := False\<rparr>) = messages s1 @
        [\<lparr>id_msg = toString (now_reply clk + 1), role = Assistant,
          content = fallback_text, timestamp = date_reply clk\<rparr>]"
      by (simp add: sendMessage_catch_def s2(1))
    with a that [of "\<lparr>id_msg = toString (now_reply clk + 1), role = Assistant,
          content = fallback_text, timestamp = date_reply clk\<rparr>"] show ?thesis
      by simp
  next
    assume a: "sendMessage_settle P clk res c s1 = (sendMessage_complete clk s2)\<lparr>isLoading := False\<rparr>"
    have "messages ((sendMessage_complete clk s2)\<lparr>isLoading := False\<rparr>) = messages s1 @
        [\<lparr>id_msg = toString (now_reply clk + 1), role = Assistant,
          content = streamingRef s2, timestamp = date_reply clk\<rparr>]"
      by (simp add: sendMessage_complete_def s2(1))
    with a that [of "\<lparr>id_msg = toString (now_reply clk + 1), role = Assistant,
          content = streamingRef s2, timestamp = date_reply clk\<rparr>"] show ?thesis
      by simp
  qed
qed

lemma chunk_unchanged:
  "messages (fst (sendMessage_chunk P c acc)) = messages (fst acc)"
  "isLoading (fst (sendMessage_chunk P c acc)) = isLoading (fst acc)"
  by (simp_all add: sendMessage_chunk_def lines_unchanged)

lemma step_prefix: "prefix (messages (st u)) (messages (st (chat_step P ev u)))"
proof (cases ev)
  case Render
  then show ?thesis by simp
next
  case (Ask clk mtext)
  then show ?thesis
    by (simp add: sendMessage_start_def)
next
  case (Chunk n c)
  have "messages (fst (sendMessage_chunk P c (st u, flight_newSessionId (inflight u ! n)))) =
      messages (st u)"
    by (simp add: chunk_unchanged)
  with Chunk show ?thesis
    by (cases "sendMessage_chunk P c (st u, flight_newSessionId (inflight u ! n))") simp
next
  case (Finish n clk e)
  then show ?thesis
    by (cases e) (simp_all add: sendMessage_complete_def sendMessage_catch_def)
next
  case (SetInput v)
  then show ?thesis by simp
next
  case (SetShowCallbackForm b)
  then show ?thesis by simp
next
  case (SetCallbackSuccess b)
  then show ?thesis by simp
qed

lemma run_prefix: "prefix (messages (st u)) (messages (st (chat_run P evs u)))"
  unfolding chat_run_def
proof (induction evs arbitrary: u)
  case Nil
  show ?case by simp
next
  case (Cons ev evs)
  have "prefix (messages (st u)) (messages (st (chat_step P ev u)))"
    by (rule step_prefix)
  also have "prefix \<dots> (messages (st (fold (chat_step P) evs (chat_step P ev u))))"
    by (rule Cons.IH)
  finally show ?case by simp
qed

text \<open>
  C6. The transcript is append-only: after any step of the component, and after any
  sequence of steps, the old transcript is a prefix of the new one. A submitted turn,
  whatever its response, appends exactly two messages: one of the user, then one of the
  assistant.
\<close>

theorem transcript_append_only:
  "prefix (messages (st u)) (messages (st (chat_step P ev u)))
   \<and> prefix (messages (st u)) (messages (st (chat_run P evs u)))
   \<and> (trim messageText \<noteq> [] \<and> \<not> isLoading s0 \<longrightarrow>
        prefix (messages s0) (messages (fst (sendMessage P clk res messageText s0)))
        \<and> map role (drop (length (messages s0)) (messages (fst (sendMessage P clk res messageText s0))))
            = [User, Assistant])"
proof -
  have "prefix (messages s0) (messages (fst (sendMessage P clk res messageText s0)))
      \<and> map role (drop (length (messages s0)) (messages (fst (sendMessage P clk res messageText s0))))
            = [User, Assistant]"
    if a: "trim messageText \<noteq> []" "\<not> isLoading s0"
  proof -
    let ?s1 = "fst (sendMessage_start clk messageText s0 s0)"
    obtain m where m: "messages (sendMessage_settle P clk res (sessionId s0) ?s1) = messages ?s1 @ [m]"
      "role m = Assistant"
      by (rule settle_messages)
    show ?thesis
      using a m by (simp add: sendMessage_submitted start_messages)
  qed
  then show ?thesis
    using step_prefix run_prefix by blast
qed

theorem transcript_append_only_witness:
  "prefix (messages (st chat_ui_initial))
      (messages (st (chat_step sample_parse (Ask sample_clock (lit '' Hi '')) chat_ui_initial)))
   \<and> prefix (messages (st chat_ui_initial))
      (messages (st (chat_run sample_parse sample_followup chat_ui_initial)))
   \<and> trim (lit '' Hi '') \<noteq> [] \<and> \<not> isLoading chat_initial
   \<and> prefix (messages chat_initial)
        (messages (fst (sendMessage sample_parse sample_clock FetchRejects (lit '' Hi '') chat_initial)))
   \<and> map role (messages (fst (sendMessage sample_parse sample_clock FetchRejects (lit '' Hi '')
        chat_initial))) = [User, Assistant]"
  using transcript_append_only [of chat_ui_initial sample_parse "Ask sample_clock (lit '' Hi '')"
      sample_followup "lit '' Hi ''" chat_initial sample_clock FetchRejects]
    sample_trim_ne sample_idle
  by simp

section \<open>The guard of sendMessage\<close>

lemma trim_empty_iff: "trim t = [] \<longleftrightarrow> list_all js_space t"
proof
  assume "trim t = []"
  then have "dropWhile js_space (rev (dropWhile js_space t)) = []"
    by (simp add: trim_def)
  then have "\<forall>x\<in>set (rev (dropWhile js_space t)). js_space x"
    by (simp only: dropWhile_eq_Nil_conv)
  then have all: "\<forall>x\<in>set (dropWhile js_space t). js_space x"
    by simp
  have "dropWhile js_space t = []"
  proof (rule ccontr)
    assume ne: "dropWhile js_space t \<noteq> []"
    then have "\<not> js_space (hd (dropWhile js_space t))" by (rule hd_dropWhile)
    moreover from ne have "hd (dropWhile js_space t) \<in> set (dropWhile js_space t)" by simp
    ultimately show False using all by blast
  qed
  then have "\<forall>x\<in>set t. js_space x"
    by (simp only: dropWhile_eq_Nil_conv)
  then show "list_all js_space t"
    by (simp add: list_all_iff)
next
  assume "list_all js_space t"
  then have "\<forall>x\<in>set t. js_space x"
    by (simp add: list_all_iff)
  then have "dropWhile js_space t = []"
    by (simp only: dropWhile_eq_Nil_conv)
  then show "trim t = []" by (simp only: trim_def, simp)
qed

lemma step_single_flight:
  assumes "single_flight u"
    and "case ev of Ask clk mtext \<Rightarrow> isLoading (shown u) = isLoading (st u) | _ \<Rightarrow> True"
  shows "single_flight (chat_step P ev u)"
proof (cases ev)
  case Render
  with assms(1) show ?thesis by (simp add: single_flight_def)
next
  case (Ask clk mtext)
  with assms have "isLoading (shown u) = isLoading (st u)" by simp
  with Ask assms(1) show ?thesis
    by (auto simp add: single_flight_def sendMessage_start_def)
next
  case (Chunk n c)
  have "isLoading (fst (sendMessage_chunk P c (st u, flight_newSessionId (inflight u ! n)))) =
      isLoading (st u)"
    by (simp add: chunk_unchanged)
  with Chunk assms(1) show ?thesis
    by (cases "sendMessage_chunk P c (st u, flight_newSessionId (inflight u ! n))")
      (auto simp add: single_flight_def)
next
  case (Finish n clk e)
  with assms(1) show ?thesis
    by (auto simp add: single_flight_def)
next
  case (SetInput v)
  with assms(1) show ?thesis by (simp add: single_flight_def)
next
  case (SetShowCallbackForm b)
  with assms(1) show ?thesis by (simp add: single_flight_def)
next
  case (SetCallbackSuccess b)
  with assms(1) show ?thesis by (simp add: single_flight_def)
qed

lemma run_single_flight:
  "single_flight u \<Longrightarrow> calls_from_latest_render P evs u \<Longrightarrow> single_flight (chat_run P evs u)"
  unfolding chat_run_def
proof (induction evs arbitrary: u)
  case Nil
  then show ?case by simp
next
  case (Cons ev evs)
  from Cons.prems have "single_flight (chat_step P ev u)"
    by (intro step_single_flight) simp_all
  moreover from Cons.prems have "calls_from_latest_render P evs (chat_step P ev u)"
    by simp
  ultimately show ?case
    using Cons.IH by simp
qed

lemma sample_blank: "list_all js_space (lit ''  '')"
  by (simp add: lit_def js_space_def)

lemma sample_more: "trim (lit ''more'') = lit ''more''" "lit ''more'' \<noteq> []"
  "trim (lit ''again'') = lit ''again''" "lit ''again'' \<noteq> []"
  by (simp_all add: trim_def lit_def js_space_def)

lemma sample_followup_fresh: "calls_from_latest_render sample_parse sample_followup chat_ui_initial"
  by (simp add: sample_followup_def chat_ui_initial_def chat_initial_def sendMessage_start_def
      sample_more case_prod_beta)

lemma sample_followup_sent:
  "sent (chat_run sample_parse sample_followup chat_ui_initial) =
     [\<lparr>req_message = lit ''more'', req_session_id = None\<rparr>]"
  by (simp add: sample_followup_def chat_run_def chat_ui_initial_def chat_initial_def
      sendMessage_start_def sample_more case_prod_beta)

lemma sample_double_call_inflight:
  "map flight_request (inflight (chat_run sample_parse sample_double_call chat_ui_initial)) =
     [\<lparr>req_message = lit ''more'', req_session_id = None\<rparr>,
      \<lparr>req_message = lit ''again'', req_session_id = None\<rparr>]"
  by (simp add: sample_double_call_def chat_run_def chat_ui_initial_def chat_initial_def
      sendMessage_start_def sample_more)

text \<open>
  C8 as it stands fails on the code: two calls of sendMessage from one render
  both read the loading flag of that render, both pass the guard, and two requests are
  in flight.
\<close>

theorem sendMessage_guard_counterexample:
  "\<not> length (inflight (chat_run sample_parse sample_double_call chat_ui_initial)) \<le> 1"
proof -
  have "length (map flight_request
      (inflight (chat_run sample_parse sample_double_call chat_ui_initial))) = 2"
    unfolding sample_double_call_inflight by simp
  then show ?thesis by simp
qed

text \<open>
  C8, amended. A call of sendMessage with a text of white space only (the empty text
  included), or from a render whose loading flag is set, changes nothing and sends no
  request. Hence, from the initial state and under any sequence of events in which
  every call of sendMessage comes from a render that shows the current loading flag, at
  most one request is in flight.
\<close>

theorem sendMessage_guard:
  "(list_all js_space messageText \<or> isLoading rendered \<longrightarrow>
      sendMessage_start clk messageText rendered s0 = (s0, None))
   \<and> (list_all js_space messageText \<or> isLoading s0 \<longrightarrow>
      sendMessage P clk res messageText s0 = (s0, []))
   \<and> (calls_from_latest_render P evs chat_ui_initial \<longrightarrow>
      length (inflight (chat_run P evs chat_ui_initial)) \<le> 1)"
proof -
  have "single_flight chat_ui_initial"
    by (simp add: single_flight_def chat_ui_initial_def)
  then have "single_flight (chat_run P evs chat_ui_initial)"
    if "calls_from_latest_render P evs chat_ui_initial"
    using that by (rule run_single_flight)
  then have "length (inflight (chat_run P evs chat_ui_initial)) \<le> 1"
    if "calls_from_latest_render P evs chat_ui_initial"
    using that by (auto simp add: single_flight_def)
  moreover have "sendMessage_start clk messageText rendered s0 = (s0, None)"
    if "list_all js_space messageText \<or> isLoading rendered"
    using that by (auto simp add: sendMessage_start_def trim_empty_iff)
  moreover have "sendMessage P clk res messageText s0 = (s0, [])"
    if "list_all js_space messageText \<or> isLoading s0"
    using that by (auto simp add: sendMessage_def sendMessage_start_def trim_empty_iff)
  ultimately show ?thesis by blast
qed

theorem sendMessage_guard_witness:
  "list_all js_space (lit ''  '')
   \<and> sendMessage_start sample_clock (lit ''  '') chat_initial chat_initial = (chat_initial, None)
   \<and> sendMessage sample_parse sample_clock FetchRejects (lit ''  '') chat_initial = (chat_initial, [])
   \<and> isLoading (chat_initial\<lparr>isLoading := True\<rparr>)
   \<and> sendMessage_start sample_clock (lit ''more'') (chat_initial\<lparr>isLoading := True\<rparr>) chat_initial =
       (chat_initial, None)
   \<and> sendMessage sample_parse sample_clock FetchRejects (lit ''more'')
        (chat_initial\<lparr>isLoading := True\<rparr>) = (chat_initial\<lparr>isLoading := True\<rparr>, [])
   \<and> calls_from_latest_render sample_parse sample_followup chat_ui_initial
   \<and> length (inflight (chat_run sample_parse sample_followup chat_ui_initial)) \<le> 1
   \<and> sent (chat_run sample_parse sample_followup chat_ui_initial) =
       [\<lparr>req_message = lit ''more'', req_session_id = None\<rparr>]"
  using sendMessage_guard [of "lit ''  ''" chat_initial sample_clock chat_initial sample_parse
      FetchRejects sample_followup]
    sendMessage_guard [of "lit ''more''" "chat_initial\<lparr>isLoading := True\<rparr>" sample_clock
      chat_initial sample_parse FetchRejects sample_followup]
    sendMessage_guard [of "lit ''more''" "chat_initial\<lparr>isLoading := True\<rparr>" sample_clock
      "chat_initial\<lparr>isLoading := True\<rparr>" sample_parse FetchRejects sample_followup]
    sample_blank sample_followup_fresh sample_followup_sent
  by simp

section \<open>The generator streamChatMessage\<close>






section \<open>The callback form\<close>

lemma step_phone:
  "list_all phone_char (phoneNumber f) \<Longrightarrow> list_all phone_char (phoneNumber (form_step ev f))"
proof (cases ev)
  case (ChangePhone raw)
  then show ?thesis
    by (simp add: phone_onChange_def Let_def list_all_iff phone_char_def)
next
  case (ChangeCountry v)
  assume "list_all phone_char (phoneNumber f)"
  with ChangeCountry show ?thesis
    by (simp add: country_onChange_def split: option.splits)
next
  case (Submit sid res)
  assume "list_all phone_char (phoneNumber f)"
  with Submit show ?thesis
    by (simp add: handleSubmit_def Let_def split: call_result.splits error_body.splits)
qed

lemma run_phone:
  "list_all phone_char (phoneNumber f) \<Longrightarrow> list_all phone_char (phoneNumber (form_run evs f))"
  unfolding form_run_def
  by (induction evs arbitrary: f) (simp_all add: step_phone)

lemma sample_valid:
  "\<not> valid_length (lit ''12 34'')" "valid_length (lit ''7911 123456'')"
  "filter (\<lambda>c. \<not> js_space c) (lit ''7911 123456'') = lit ''7911123456''"
  by (simp_all add: valid_length_def lit_def js_space_def)

lemma sample_form_run:
  "phoneNumber (form_run sample_form_events form_initial) = lit ''44 07911123 456''"
  by (simp add: form_run_def sample_form_events_def form_initial_def phone_onChange_def
      country_onChange_def COUNTRIES_def handleSubmit_def Let_def lit_def js_digit_def js_space_def)

text \<open>
  C9 as it stands fails on the code: a TAB and a no-break space typed or pasted
  into the phone field stay in it, and they are neither digits nor the space character.
  The field admits the class \<open>\s\<close>, the same class that handleSubmit strips before it
  counts and sends the number.
\<close>

theorem phone_field_counterexample:
  "\<not> list_all digit_or_space
      (phoneNumber (form_run [ChangePhone [49, 9, 50, 160, 51]] form_initial))"
  by (simp add: form_run_def phone_onChange_def form_initial_def Let_def js_digit_def
      js_space_def digit_or_space_def)

text \<open>
  C9, amended. handleSubmit sends a call request (exactly one, with the cleaned number)
  if and only if the phone number with all white space removed has between 6 and 15
  code units; otherwise it sends nothing and sets the error status and message. In
  every state the form reaches from its initial state, the phone field holds only
  digits and white-space characters, that is characters of the classes \<open>\d\<close> and \<open>\s\<close>.
\<close>

theorem callback_form_validation:
  "fst (snd (handleSubmit sid res f)) =
     (if valid_length (phoneNumber f)
      then [\<lparr>phone_number = filter (\<lambda>c. \<not> js_space c) (phoneNumber f),
             country_code = code (selectedCountry f),
             session_id = sid,
             language = lang (selectedCountry f)\<rparr>]
      else [])
   \<and> (\<not> valid_length (phoneNumber f) \<longrightarrow>
        fst (handleSubmit sid res f) =
          f\<lparr>errorMessage := lit ''Please enter a valid phone number'', status := StatusError\<rparr>)
   \<and> list_all phone_char (phoneNumber (form_run evs form_initial))"
proof -
  have "list_all phone_char (phoneNumber form_initial)"
    by (simp add: form_initial_def)
  then have "list_all phone_char (phoneNumber (form_run evs form_initial))"
    by (rule run_phone)
  moreover have "fst (snd (handleSubmit sid res f)) =
     (if valid_length (phoneNumber f)
      then [\<lparr>phone_number = filter (\<lambda>c. \<not> js_space c) (phoneNumber f),
             country_code = code (selectedCountry f),
             session_id = sid,
             language = lang (selectedCountry f)\<rparr>]
      else [])"
    by (auto simp add: handleSubmit_def valid_length_def Let_def
        split: call_result.splits error_body.splits)
  moreover have "fst (handleSubmit sid res f) =
          f\<lparr>errorMessage := lit ''Please enter a valid phone number'', status := StatusError\<rparr>"
    if "\<not> valid_length (phoneNumber f)"
    using that by (auto simp add: handleSubmit_def valid_length_def Let_def)
  ultimately show ?thesis by blast
qed

theorem callback_form_validation_witness:
  "\<not> valid_length (lit ''12 34'')
   \<and> fst (snd (handleSubmit None (CallResponse True (BodyDetail None))
        (form_initial\<lparr>phoneNumber := lit ''12 34''\<rparr>))) = []
   \<and> fst (handleSubmit None (CallResponse True (BodyDetail None))
        (form_initial\<lparr>phoneNumber := lit ''12 34''\<rparr>)) =
      form_initial\<lparr>phoneNumber := lit ''12 34'',
        errorMessage := lit ''Please enter a valid phone number'', status := StatusError\<rparr>
   \<and> valid_length (lit ''7911 123456'')
   \<and> fst (snd (handleSubmit None (CallResponse True (BodyDetail None))
        (form_initial\<lparr>phoneNumber := lit ''7911 123456''\<rparr>))) =
      [\<lparr>phone_number = lit ''7911123456'', country_code = lit ''+44'', session_id = None,
        language = lit ''en''\<rparr>]
   \<and> list_all phone_char (lit ''44 07911123 456'')
   \<and> phoneNumber (form_run sample_form_events form_initial) = lit ''44 07911123 456''"
  using callback_form_validation [of None "CallResponse True (BodyDetail None)"
      "form_initial\<lparr>phoneNumber := lit ''12 34''\<rparr>" sample_form_events]
    callback_form_validation [of None "CallResponse True (BodyDetail None)"
      "form_initial\<lparr>phoneNumber := lit ''7911 123456''\<rparr>" sample_form_events]
    sample_valid sample_form_run
  by (simp add: form_initial_def COUNTRIES_def)

section \<open>The voice interface\<close>

text \<open>
  C10. When the transcription succeeds with a transcript of white space only (the empty
  transcript included), processAudio sends no request besides the transcription: no
  chat request and no synthesis. The state it leaves is the one it found with the error
  set and the processing flag cleared: the transcript has no new message.
\<close>

theorem processAudio_blank_transcript:
  assumes "list_all js_space transcript"
  shows "processAudio captured clk (Responds True (Some (Some transcript))) chat synth s0 =
     (s0\<lparr>isProcessing := False,
         error_v := Some (lit ''Could not understand audio. Please try again.'')\<rparr>,
      [TranscribeRequest])"
proof -
  have "trim transcript = []"
    using assms by (simp add: trim_empty_iff)
  then show ?thesis
    by (simp add: processAudio_def Let_def)
qed

theorem processAudio_blank_transcript_witness:
  "list_all js_space (lit ''  '')
   \<and> processAudio None sample_clock (Responds True (Some (Some (lit ''  '')))) Rejects SynthRejects
        voice_initial =
      (voice_initial\<lparr>error_v := Some (lit ''Could not understand audio. Please try again.'')\<rparr>,
       [TranscribeRequest])"
  using processAudio_blank_transcript [OF sample_blank, of None sample_clock Rejects SynthRejects
      voice_initial] sample_blank
  by (simp add: voice_initial_def)

section \<open>The Run Gate\<close>

lemma leases_of_empty_iff:
  "leases_of sid g = [] \<longleftrightarrow> sid \<notin> lease_session ` set (outstanding g)"
  by (auto simp add: leases_of_def filter_empty_conv)

lemma acquire_one_lease_each:
  "one_lease_each g \<Longrightarrow> one_lease_each (snd (acquire sid g))"
  by (auto simp add: acquire_def one_lease_each_def Let_def leases_of_empty_iff)

lemma release_one_lease_each:
  "one_lease_each g \<Longrightarrow> one_lease_each (release l g)"
  by (simp add: release_def one_lease_each_def removeAll_filter_not_eq distinct_map_filter)

lemma gate_run_one_lease_each:
  "one_lease_each g \<Longrightarrow> one_lease_each (snd (gate_run ops g))"
proof (induction ops arbitrary: g)
  case Nil
  then show ?case by simp
next
  case (Cons op ops)
  show ?case
  proof (cases op)
    case (Acquire sid)
    have "one_lease_each (snd (acquire sid g))"
      using Cons.prems by (rule acquire_one_lease_each)
    then have "one_lease_each (snd (gate_run ops (snd (acquire sid g))))"
      by (rule Cons.IH)
    with Acquire show ?thesis
      by (auto split: prod.splits)
  next
    case (Release l)
    have "one_lease_each (release l g)"
      using Cons.prems by (rule release_one_lease_each)
    then have "one_lease_each (snd (gate_run ops (release l g)))"
      by (rule Cons.IH)
    with Release show ?thesis by simp
  qed
qed

lemma distinct_map_filter_le1:
  "distinct (map f xs) \<Longrightarrow> length (filter (\<lambda>x. f x = a) xs) \<le> 1"
proof (induction xs)
  case Nil
  show ?case by simp
next
  case (Cons x xs)
  show ?case
  proof (cases "f x = a")
    case True
    with Cons.prems have "a \<notin> f ` set xs" by auto
    then have "filter (\<lambda>x. f x = a) xs = []"
      by (auto simp add: filter_empty_conv)
    with True show ?thesis by simp
  next
    case False
    with Cons show ?thesis by simp
  qed
qed

lemma acquire_busy: "leases_of sid g \<noteq> [] \<Longrightarrow> acquire sid g = (Busy, g)"
  by (simp add: acquire_def)

lemma acquire_free:
  "leases_of sid g = [] \<Longrightarrow>
   acquire sid g =
     (Lease \<lparr>lease_session = sid, lease_no = next_no g\<rparr>,
      g\<lparr>outstanding := \<lparr>lease_session = sid, lease_no = next_no g\<rparr> # outstanding g,
        next_no := next_no g + 1\<rparr>)"
  by (simp add: acquire_def Let_def)

lemma repeated_acquire_busy:
  "leases_of sid g \<noteq> [] \<Longrightarrow> gate_run (replicate n (Acquire sid)) g = (replicate n Busy, g)"
  by (induction n) (simp_all add: acquire_busy)

lemma repeated_acquire:
  "fst (gate_run (replicate (Suc n) (Acquire sid)) g) =
     (if leases_of sid g = [] then Lease \<lparr>lease_session = sid, lease_no = next_no g\<rparr> else Busy)
       # replicate n Busy"
proof (cases "leases_of sid g = []")
  case True
  let ?g1 = "g\<lparr>outstanding := \<lparr>lease_session = sid, lease_no = next_no g\<rparr> # outstanding g,
        next_no := next_no g + 1\<rparr>"
  have "leases_of sid ?g1 \<noteq> []"
    by (simp add: leases_of_def)
  then have "gate_run (replicate n (Acquire sid)) ?g1 = (replicate n Busy, ?g1)"
    by (rule repeated_acquire_busy)
  with True show ?thesis
    by (simp add: acquire_free)
next
  case False
  then show ?thesis
    using repeated_acquire_busy [OF False, of "Suc n"] by simp
qed

text \<open>
  C1. After any interleaving of acquires and releases by any callers, every session has
  at most one lease outstanding. An acquire for a session whose lease is outstanding
  returns Busy and leaves the gate as it was (nothing is queued). Of any number of
  acquires in a row for one session, the first gets the lease if the session was free,
  and all the others get Busy.
\<close>

theorem gate_mutual_exclusion:
  "length (leases_of sid (snd (gate_run ops gate_initial))) \<le> 1
   \<and> (leases_of sid g \<noteq> [] \<longrightarrow> acquire sid g = (Busy, g))
   \<and> fst (gate_run (replicate (Suc n) (Acquire sid)) g) =
       (if leases_of sid g = [] then Lease \<lparr>lease_session = sid, lease_no = next_no g\<rparr> else Busy)
         # replicate n Busy"
proof -
  have "one_lease_each gate_initial"
    by (simp add: one_lease_each_def gate_initial_def)
  then have "one_lease_each (snd (gate_run ops gate_initial))"
    by (rule gate_run_one_lease_each)
  then have "length (leases_of sid (snd (gate_run ops gate_initial))) \<le> 1"
    unfolding one_lease_each_def leases_of_def by (rule distinct_map_filter_le1)
  then show ?thesis
    using acquire_busy [of sid g] repeated_acquire [of n sid g] by blast
qed

theorem gate_mutual_exclusion_witness:
  "leases_of (lit ''s1'') (snd (gate_run sample_gate_ops gate_initial)) =
      [\<lparr>lease_session = lit ''s1'', lease_no = 2\<rparr>]
   \<and> length (leases_of (lit ''s1'') (snd (gate_run sample_gate_ops gate_initial))) \<le> 1
   \<and> leases_of (lit ''s1'') (snd (gate_run sample_gate_ops gate_initial)) \<noteq> []
   \<and> acquire (lit ''s1'') (snd (gate_run sample_gate_ops gate_initial)) =
       (Busy, snd (gate_run sample_gate_ops gate_initial))
   \<and> fst (gate_run sample_gate_ops gate_initial) =
       [Lease \<lparr>lease_session = lit ''s1'', lease_no = 0\<rparr>,
        Lease \<lparr>lease_session = lit ''s2'', lease_no = 1\<rparr>,
        Busy,
        Lease \<lparr>lease_session = lit ''s1'', lease_no = 2\<rparr>]
   \<and> fst (gate_run (replicate (Suc 3) (Acquire (lit ''s3''))) (snd (gate_run sample_gate_ops gate_initial))) =
       [Lease \<lparr>lease_session = lit ''s3'', lease_no = 3\<rparr>, Busy, Busy, Busy]"
proof -
  have run: "gate_run sample_gate_ops gate_initial =
      ([Lease \<lparr>lease_session = lit ''s1'', lease_no = 0\<rparr>,
        Lease \<lparr>lease_session = lit ''s2'', lease_no = 1\<rparr>,
        Busy,
        Lease \<lparr>lease_session = lit ''s1'', lease_no = 2\<rparr>],
       \<lparr>outstanding = [\<lparr>lease_session = lit ''s1'', lease_no = 2\<rparr>,
                       \<lparr>lease_session = lit ''s2'', lease_no = 1\<rparr>],
        next_no = 3\<rparr>)"
    by (simp add: sample_gate_ops_def gate_initial_def acquire_def release_def leases_of_def
        Let_def lit_def)
  have held: "leases_of (lit ''s1'') (snd (gate_run sample_gate_ops gate_initial)) =
      [\<lparr>lease_session = lit ''s1'', lease_no = 2\<rparr>]"
    and free: "leases_of (lit ''s3'') (snd (gate_run sample_gate_ops gate_initial)) = []"
    unfolding run by (simp_all add: leases_of_def lit_def)
  show ?thesis
    using gate_mutual_exclusion [of "lit ''s1''" sample_gate_ops
        "snd (gate_run sample_gate_ops gate_initial)" 3]
      gate_mutual_exclusion [of "lit ''s3''" sample_gate_ops
        "snd (gate_run sample_gate_ops gate_initial)" 3]
      held free
    by (simp add: run numeral_3_eq_3)
qed

section \<open>The Run Executor\<close>

lemma release_idempotent: "release l (release l g) = release l g"
  by (simp add: release_def)

lemma drive_terminal: "terminal (run_state (drive cap evs r))"
  by (simp add: drive_def Let_def terminal_def)

lemma executor_gate:
  "outstanding (snd (run_executor cap sid turn evs g)) = outstanding g"
proof (cases "leases_of sid g = []")
  case True
  then have "\<lparr>lease_session = sid, lease_no = next_no g\<rparr> \<notin> set (outstanding g)"
    by (force simp add: leases_of_empty_iff)
  then have "removeAll \<lparr>lease_session = sid, lease_no = next_no g\<rparr> (outstanding g) = outstanding g"
    by simp
  with True show ?thesis
    by (simp add: run_executor_def acquire_free release_def)
next
  case False
  then show ?thesis
    by (simp add: run_executor_def acquire_busy)
qed

lemma sample_gate_free: "leases_of (lit ''s3'') sample_gate = []"
  by (simp add: leases_of_def sample_gate_def lit_def)

lemma sample_paths_end:
  "map (\<lambda>evs. (run_state (drive 3 evs
          \<lparr>run_session = lit ''s3'', submitted_turn = lit ''Hi'', run_state = Queued,
           accumulated_output = [], run_failure = None, attempts = 0\<rparr>),
        run_failure (drive 3 evs
          \<lparr>run_session = lit ''s3'', submitted_turn = lit ''Hi'', run_state = Queued,
           accumulated_output = [], run_failure = None, attempts = 0\<rparr>))) sample_paths =
     [(Completed, None), (Failed, Some UnsupportedAction), (Cancelled, None),
      (Failed, Some Timeout)]"
  by (simp add: sample_paths_def drive_def run_step_def terminal_def Let_def)

text \<open>
  C2. Releasing a lease twice is the same as releasing it once. Whatever the executor
  observes while it drives a run (completion, failure, an unresolvable action, retries
  exhausted, a disconnect, the timer, or nothing more), the run ends in a terminal
  status and the gate holds afterwards exactly the leases it held before the turn: the
  session of the turn is free again.
\<close>

theorem executor_releases_gate:
  "release l (release l g) = release l g
   \<and> outstanding (snd (run_executor cap sid turn evs g)) = outstanding g
   \<and> (leases_of sid g = [] \<longrightarrow>
        leases_of sid (snd (run_executor cap sid turn evs g)) = []
        \<and> fst (run_executor cap sid turn evs g) =
            Some (drive cap evs
              \<lparr>run_session = sid, submitted_turn = turn, run_state = Queued,
               accumulated_output = [], run_failure = None, attempts = 0\<rparr>)
        \<and> terminal (run_state (drive cap evs
              \<lparr>run_session = sid, submitted_turn = turn, run_state = Queued,
               accumulated_output = [], run_failure = None, attempts = 0\<rparr>)))"
proof -
  have "leases_of sid (snd (run_executor cap sid turn evs g)) = leases_of sid g"
    by (simp add: leases_of_def executor_gate)
  moreover have "fst (run_executor cap sid turn evs g) =
            Some (drive cap evs
              \<lparr>run_session = sid, submitted_turn = turn, run_state = Queued,
               accumulated_output = [], run_failure = None, attempts = 0\<rparr>)"
    if "leases_of sid g = []"
    using that by (simp add: run_executor_def acquire_free)
  ultimately show ?thesis
    using release_idempotent executor_gate drive_terminal by simp
qed

theorem executor_releases_gate_witness:
  "leases_of (lit ''s3'') sample_gate = []
   \<and> list_all (\<lambda>evs.
         leases_of (lit ''s3'') (snd (run_executor 3 (lit ''s3'') (lit ''Hi'') evs sample_gate)) = []
         \<and> outstanding (snd (run_executor 3 (lit ''s3'') (lit ''Hi'') evs sample_gate)) =
             outstanding sample_gate
         \<and> terminal (run_state (drive 3 evs
              \<lparr>run_session = lit ''s3'', submitted_turn = lit ''Hi'', run_state = Queued,
               accumulated_output = [], run_failure = None, attempts = 0\<rparr>)))
       sample_paths
   \<and> map (\<lambda>evs. (run_state (drive 3 evs
          \<lparr>run_session = lit ''s3'', submitted_turn = lit ''Hi'', run_state = Queued,
           accumulated_output = [], run_failure = None, attempts = 0\<rparr>),
        run_failure (drive 3 evs
          \<lparr>run_session = lit ''s3'', submitted_turn = lit ''Hi'', run_state = Queued,
           accumulated_output = [], run_failure = None, attempts = 0\<rparr>))) sample_paths =
     [(Completed, None), (Failed, Some UnsupportedAction), (Cancelled, None),
      (Failed, Some Timeout)]
   \<and> release \<lparr>lease_session = lit ''s1'', lease_no = 2\<rparr>
        (release \<lparr>lease_session = lit ''s1'', lease_no = 2\<rparr> sample_gate) =
       release \<lparr>lease_session = lit ''s1'', lease_no = 2\<rparr> sample_gate"
proof -
  have "leases_of (lit ''s3'') (snd (run_executor 3 (lit ''s3'') (lit ''Hi'') evs sample_gate)) = []
         \<and> outstanding (snd (run_executor 3 (lit ''s3'') (lit ''Hi'') evs sample_gate)) =
             outstanding sample_gate
         \<and> terminal (run_state (drive 3 evs
              \<lparr>run_session = lit ''s3'', submitted_turn = lit ''Hi'', run_state = Queued,
               accumulated_output = [], run_failure = None, attempts = 0\<rparr>))" for evs
    using executor_releases_gate [of "\<lparr>lease_session = lit ''s1'', lease_no = 2\<rparr>" sample_gate
        3 "lit ''s3''" "lit ''Hi''" evs] sample_gate_free
    by simp
  then have "list_all (\<lambda>evs.
         leases_of (lit ''s3'') (snd (run_executor 3 (lit ''s3'') (lit ''Hi'') evs sample_gate)) = []
         \<and> outstanding (snd (run_executor 3 (lit ''s3'') (lit ''Hi'') evs sample_gate)) =
             outstanding sample_gate
         \<and> terminal (run_state (drive 3 evs
              \<lparr>run_session = lit ''s3'', submitted_turn = lit ''Hi'', run_state = Queued,
               accumulated_output = [], run_failure = None, attempts = 0\<rparr>)))
       sample_paths"
    by (simp add: list_all_iff)
  moreover have "release \<lparr>lease_session = lit ''s1'', lease_no = 2\<rparr>
        (release \<lparr>lease_session = lit ''s1'', lease_no = 2\<rparr> sample_gate) =
       release \<lparr>lease_session = lit ''s1'', lease_no = 2\<rparr> sample_gate"
    using executor_releases_gate [of "\<lparr>lease_session = lit ''s1'', lease_no = 2\<rparr>" sample_gate]
    by simp
  ultimately show ?thesis
    using sample_gate_free sample_paths_end by simp
qed

end
